theory Spec2Isabelle
  imports Main
begin

section \<open>Values, errors and the store of Go maps\<close>

text \<open>
  The package under verification is a facade over the zap logging library
  (files \<^verbatim>\<open>fields.go\<close> and \<^verbatim>\<open>client.go\<close>).  A value of Go's
  \<^verbatim>\<open>interface{}\<close> is one of the following; \<open>VNil\<close> is the nil interface,
  \<open>VError\<close> a value whose dynamic type implements \<^verbatim>\<open>error\<close>, \<open>VStr\<close> a value of
  dynamic type \<^verbatim>\<open>string\<close>, and \<open>VOther\<close> stands for a value of any other
  dynamic type.
\<close>

datatype goerror =
    Errorf string "string list"   \<comment> \<open>\<^verbatim>\<open>fmt.Errorf(format, args...)\<close>, kept unformatted\<close>
  | ErrorsNew string              \<comment> \<open>\<^verbatim>\<open>errors.New(msg)\<close> of pkg/errors\<close>
  | WithStack goerror             \<comment> \<open>\<^verbatim>\<open>errors.WithStack(err)\<close> of pkg/errors\<close>
  | DialError string string       \<comment> \<open>the error of a failed \<^verbatim>\<open>net.Dial(protocol, addr)\<close>\<close>

datatype val =
    VNil
  | VInt int
  | VStr string
  | VBool bool
  | VError goerror
  | VOther nat

text \<open>
  \<^verbatim>\<open>type Fields map[string]interface{}\<close>.  A Go map is a reference: two variables
  may denote the same map, and an assignment \<^verbatim>\<open>m[k] = v\<close> is seen through both.
  The maps therefore live in a store, a list of map contents indexed by address;
  a value of type \<^verbatim>\<open>Fields\<close> is \<open>None\<close> (the nil map) or \<open>Some a\<close>, the
  address of a map made earlier.
\<close>

type_synonym Fields = "nat option"

record slice =
  ptr :: nat            \<comment> \<open>identity of the backing array; 0 is the shared zero-size base\<close>
  elems :: "val list"   \<comment> \<open>the \<^verbatim>\<open>len\<close> visible elements\<close>
  cap :: nat

datatype zlevel = DebugLevel | InfoLevel | WarnLevel | ErrorLevel | PanicLevel | FatalLevel

datatype msg =
    Sprint "val list"            \<comment> \<open>message of \<^verbatim>\<open>Debug(args...)\<close> and its siblings\<close>
  | Sprintf string "val list"    \<comment> \<open>message of \<^verbatim>\<open>Debugf(format, args...)\<close> and its siblings\<close>

datatype writer = Stdout | Conn string string

record encoderConfig =
  MessageKey :: string
  TimeKey :: string
  LevelKey :: string
  TimeLayout :: string

datatype encoder = JSONEncoder encoderConfig | ConsoleEncoder encoderConfig

record entry =
  entry_level :: zlevel
  entry_message :: msg
  entry_fields :: "(string \<times> val) list"

text \<open>Calls into the two libraries the facade drives, in the order they are made.\<close>

datatype call =
    PoolGet slice
  | PoolPut slice
  | SugarWith "val list"
  | SugarLog zlevel msg

record world =
  heap :: "(string \<rightharpoonup> val) list"
  flattenPool :: "slice list"
  nextPtr :: nat
  stdlog :: "string list"
  written :: "(writer \<times> encoder \<times> entry) list"
  calls :: "call list"

definition valid_ref :: "world \<Rightarrow> Fields \<Rightarrow> bool" where
  "valid_ref w f = (case f of None \<Rightarrow> True | Some a \<Rightarrow> a < length (heap w))"

text \<open>Reading a map; the nil map reads as the empty map.\<close>

definition load :: "world \<Rightarrow> Fields \<Rightarrow> (string \<rightharpoonup> val)" where
  "load w f = (case f of None \<Rightarrow> Map.empty | Some a \<Rightarrow> heap w ! a)"

text \<open>\<^verbatim>\<open>make(Fields, n)\<close>: a new, empty map at a fresh address (never nil).\<close>

definition make_map :: "world \<Rightarrow> nat \<times> world" where
  "make_map w = (length (heap w), w\<lparr>heap := heap w @ [Map.empty]\<rparr>)"

text \<open>\<^verbatim>\<open>m[k] = v\<close> on the map at address \<open>a\<close>.\<close>

definition map_assign :: "nat \<Rightarrow> string \<Rightarrow> val \<Rightarrow> world \<Rightarrow> world" where
  "map_assign a k v w = w\<lparr>heap := (heap w)[a := (heap w ! a)(k \<mapsto> v)]\<rparr>"

text \<open>
  \<^verbatim>\<open>for k, v := range src { dst[k] = v }\<close>.  Go visits every key of the map once,
  in an order the runtime chooses; the order is the parameter \<open>ks\<close>, and
  \<open>iteration_order\<close> says that it is one the runtime can choose.
\<close>

definition iteration_order :: "(string \<rightharpoonup> val) \<Rightarrow> string list \<Rightarrow> bool" where
  "iteration_order m ks = (distinct ks \<and> set ks = dom m)"

primrec range_assign :: "string list \<Rightarrow> Fields \<Rightarrow> nat \<Rightarrow> world \<Rightarrow> world" where
  "range_assign [] src dst w = w"
| "range_assign (k # ks) src dst w =
     range_assign ks src dst
       (case load w src k of None \<Rightarrow> w | Some v \<Rightarrow> map_assign dst k v w)"

section \<open>fields.go: Copy and Merge\<close>

text \<open>
  \<^verbatim>\<open>func (f Fields) Copy() Fields\<close>.  The result of \<^verbatim>\<open>make\<close> is never nil, so the
  copy is returned as \<open>Some\<close> of its address.
\<close>

definition Copy :: "string list \<Rightarrow> Fields \<Rightarrow> world \<Rightarrow> Fields \<times> world" where
  "Copy ks f w =
     (let (newF, w1) = make_map w;
          w2 = range_assign ks f newF w1
      in (Some newF, w2))"

text \<open>
  \<^verbatim>\<open>func (f Fields) Merge(newValues Fields) Fields\<close>.  \<open>ks\<close> is the order of
  the loop inside \<open>Copy\<close>, \<open>ns\<close> the order of the loop over \<open>newValues\<close>.
  An assignment into the nil map would panic; \<open>copied\<close> is never nil.
\<close>

definition Merge :: "string list \<Rightarrow> string list \<Rightarrow> Fields \<Rightarrow> Fields \<Rightarrow> world \<Rightarrow> Fields \<times> world" where
  "Merge ks ns f newValues w =
     (let (copied, w1) = Copy ks f w
      in (case copied of
            None \<Rightarrow> (copied, w1)
          | Some c \<Rightarrow> (copied, range_assign ns newValues c w1)))"

section \<open>fields.go: Flatten and the buffer pool\<close>

text \<open>\<^verbatim>\<open>var ignore = map[string]struct{}{...}\<close>, the reserved keys.\<close>

definition ignore :: "string \<rightharpoonup> unit" where
  "ignore = [''@timestamp'' \<mapsto> (), ''message'' \<mapsto> (), ''level'' \<mapsto> (), ''service'' \<mapsto> ()]"

text \<open>
  What the Go runtime decides during one call of \<open>Flatten\<close>: which item
  \<^verbatim>\<open>sync.Pool.Get\<close> hands out (\<open>None\<close>: a new one from \<^verbatim>\<open>New\<close>), the order in
  which \<^verbatim>\<open>range\<close> visits the keys, and the capacity \<^verbatim>\<open>append\<close> gives a backing
  array it has to reallocate (from the old capacity and the length needed).
\<close>

record runtime =
  poolPick :: "nat option"
  rangeOrder :: "string list"
  growCap :: "nat \<Rightarrow> nat \<Rightarrow> nat"

text \<open>\<^verbatim>\<open>New: func() interface{} { return []interface{}{} }\<close>\<close>

definition flattenPool_New :: slice where
  "flattenPool_New = \<lparr>ptr = 0, elems = [], cap = 0\<rparr>"

text \<open>
  \<^verbatim>\<open>flattenPool.Get()\<close>: the library removes an item of its choice from the pool and
  returns it, or returns the result of \<^verbatim>\<open>New\<close>.
\<close>

definition flattenPool_Get :: "nat option \<Rightarrow> world \<Rightarrow> slice \<times> world" where
  "flattenPool_Get pick w =
     (let (s, rest) =
            (case pick of
               None \<Rightarrow> (flattenPool_New, flattenPool w)
             | Some i \<Rightarrow>
                 if i < length (flattenPool w)
                 then (flattenPool w ! i, take i (flattenPool w) @ drop (Suc i) (flattenPool w))
                 else (flattenPool_New, flattenPool w))
      in (s, w\<lparr>flattenPool := rest, calls := calls w @ [PoolGet s]\<rparr>))"

definition flattenPool_Put :: "slice \<Rightarrow> world \<Rightarrow> world" where
  "flattenPool_Put s w = w\<lparr>flattenPool := flattenPool w @ [s], calls := calls w @ [PoolPut s]\<rparr>"

text \<open>
  \<^verbatim>\<open>list = append(list, k, v)\<close>: in place when the capacity suffices, otherwise
  into a newly allocated backing array.
\<close>

definition append2 :: "(nat \<Rightarrow> nat \<Rightarrow> nat) \<Rightarrow> slice \<Rightarrow> val \<Rightarrow> val \<Rightarrow> world \<Rightarrow> slice \<times> world" where
  "append2 grow s k v w =
     (if length (elems s) + 2 \<le> cap s
      then (s\<lparr>elems := elems s @ [k, v]\<rparr>, w)
      else (\<lparr>ptr = nextPtr w, elems = elems s @ [k, v],
             cap = grow (cap s) (length (elems s) + 2)\<rparr>,
            w\<lparr>nextPtr := Suc (nextPtr w)\<rparr>))"

text \<open>The loop of \<open>Flatten\<close>: \<^verbatim>\<open>for k, v := range f { if _, ok := ignore[k]; ok { continue }; list = append(list, k, v) }\<close>\<close>

primrec Flatten_loop ::
    "(nat \<Rightarrow> nat \<Rightarrow> nat) \<Rightarrow> string list \<Rightarrow> Fields \<Rightarrow> slice \<Rightarrow> world \<Rightarrow> slice \<times> world" where
  "Flatten_loop grow [] f list w = (list, w)"
| "Flatten_loop grow (k # ks) f list w =
     (case load w f k of
        None \<Rightarrow> Flatten_loop grow ks f list w
      | Some v \<Rightarrow>
          (case ignore k of
             Some ok \<Rightarrow> Flatten_loop grow ks f list w
           | None \<Rightarrow>
               (let (list', w') = append2 grow list (VStr k) v w
                in Flatten_loop grow ks f list' w')))"

text \<open>\<^verbatim>\<open>func (f Fields) Flatten() []interface{}\<close>\<close>

definition Flatten :: "runtime \<Rightarrow> Fields \<Rightarrow> world \<Rightarrow> slice \<times> world" where
  "Flatten rt f w =
     (let (list, w1) = flattenPool_Get (poolPick rt) w
      in Flatten_loop (growCap rt) (rangeOrder rt) f list w1)"

text \<open>\<^verbatim>\<open>func putFlatten(flatten []interface{}) { flattenPool.Put(flatten[:0]) }\<close>\<close>

definition putFlatten :: "slice \<Rightarrow> world \<Rightarrow> world" where
  "putFlatten flatten w = flattenPool_Put (flatten\<lparr>elems := []\<rparr>) w"

text \<open>Every buffer waiting in the pool has length 0.\<close>

definition pool_empty :: "world \<Rightarrow> bool" where
  "pool_empty w = list_all (\<lambda>s. elems s = []) (flattenPool w)"

text \<open>The key/value pairs of an alternating sequence.\<close>

fun kv_pairs :: "val list \<Rightarrow> (val \<times> val) list" where
  "kv_pairs (k # v # rest) = (k, v) # kv_pairs rest"
| "kv_pairs rest = []"

text \<open>
  The alternating sequence of the non-reserved entries of a map, for the keys
  \<open>ks\<close> in their order.
\<close>

definition flatten_of :: "(string \<rightharpoonup> val) \<Rightarrow> string list \<Rightarrow> val list" where
  "flatten_of m ks =
     concat (map (\<lambda>k. case m k of
                         None \<Rightarrow> []
                       | Some v \<Rightarrow> (case ignore k of None \<Rightarrow> [VStr k, v] | Some ok \<Rightarrow> [])) ks)"

section \<open>The zap primitives\<close>

text \<open>
  The emitter is the library go.uber.org/zap, which is not part of the repository.
  Its part in the claims is small and is modelled here from its documented
  behaviour, as sections 3, 4.2 and 6 of the specification describe it: a core
  writes an entry iff its level enabler accepts the entry's level; a tee hands
  an entry to each of its cores; \<^verbatim>\<open>With\<close> adds fields to every core; a call at
  panic level panics after writing and a call at fatal level exits the process
  after writing, whether or not any core wrote.

  \<^verbatim>\<open>zapcore.Level\<close> is an \<^verbatim>\<open>int8\<close>; the constants are declared in
  \<^verbatim>\<open>zapcore/level.go\<close> as \<^verbatim>\<open>DebugLevel = -1\<close>, \<^verbatim>\<open>InfoLevel = 0\<close>,
  \<^verbatim>\<open>WarnLevel = 1\<close>, \<^verbatim>\<open>ErrorLevel = 2\<close>, \<^verbatim>\<open>DPanicLevel = 3\<close>,
  \<^verbatim>\<open>PanicLevel = 4\<close>, \<^verbatim>\<open>FatalLevel = 5\<close>.  The package never produces
  \<^verbatim>\<open>DPanicLevel\<close>, so \<open>zlevel\<close> leaves it out.
\<close>

fun level_int :: "zlevel \<Rightarrow> int" where
  "level_int DebugLevel = -1"
| "level_int InfoLevel = 0"
| "level_int WarnLevel = 1"
| "level_int ErrorLevel = 2"
| "level_int PanicLevel = 4"
| "level_int FatalLevel = 5"

record core =
  enabler :: "zlevel \<Rightarrow> bool"
  core_encoder :: encoder
  core_writer :: writer
  core_fields :: "(string \<times> val) list"

text \<open>\<^verbatim>\<open>zapcore.NewCore(enc, ws, enab)\<close>\<close>

definition NewCore :: "encoder \<Rightarrow> writer \<Rightarrow> (zlevel \<Rightarrow> bool) \<Rightarrow> core" where
  "NewCore enc ws enab = \<lparr>enabler = enab, core_encoder = enc, core_writer = ws, core_fields = []\<rparr>"

text \<open>\<^verbatim>\<open>core.With(fields)\<close> on one core, and on a tee of cores.\<close>

definition core_With :: "(string \<times> val) list \<Rightarrow> core \<Rightarrow> core" where
  "core_With fs c = c\<lparr>core_fields := core_fields c @ fs\<rparr>"

definition NewTee :: "core list \<Rightarrow> core list" where
  "NewTee cores = cores"

definition tee_With :: "(string \<times> val) list \<Rightarrow> core list \<Rightarrow> core list" where
  "tee_With fs t = map (core_With fs) t"

text \<open>
  \<^verbatim>\<open>zap.New(core).Sugar()\<close>: a sugared logger over the tee.  Its \<^verbatim>\<open>With(args...)\<close>
  reads the arguments as alternating keys and values; the facade only passes
  sequences made by \<open>Flatten\<close>, whose keys are strings.
\<close>

fun sweetenFields :: "val list \<Rightarrow> (string \<times> val) list" where
  "sweetenFields (VStr k # v # rest) = (k, v) # sweetenFields rest"
| "sweetenFields (k # v # rest) = sweetenFields rest"
| "sweetenFields rest = []"

definition SugaredLogger_With :: "val list \<Rightarrow> core list \<Rightarrow> world \<Rightarrow> core list \<times> world" where
  "SugaredLogger_With args s w =
     (tee_With (sweetenFields args) s, w\<lparr>calls := calls w @ [SugarWith args]\<rparr>)"

datatype outcome = Returned | Panicked msg | Exited int

definition core_write :: "zlevel \<Rightarrow> msg \<Rightarrow> core \<Rightarrow> (writer \<times> encoder \<times> entry) list" where
  "core_write lvl m c =
     (if enabler c lvl
      then [(core_writer c, core_encoder c,
             \<lparr>entry_level = lvl, entry_message = m, entry_fields = core_fields c\<rparr>)]
      else [])"

definition SugaredLogger_log :: "core list \<Rightarrow> zlevel \<Rightarrow> msg \<Rightarrow> world \<Rightarrow> outcome \<times> world" where
  "SugaredLogger_log s lvl m w =
     (let w' = w\<lparr>written := written w @ concat (map (core_write lvl m) s),
                 calls := calls w @ [SugarLog lvl m]\<rparr>
      in (case lvl of
            PanicLevel \<Rightarrow> (Panicked m, w')
          | FatalLevel \<Rightarrow> (Exited 1, w')
          | _ \<Rightarrow> (Returned, w')))"

text \<open>The log calls among the library calls, in order.\<close>

fun logged :: "call list \<Rightarrow> (zlevel \<times> msg) list" where
  "logged [] = []"
| "logged (SugarLog lvl m # cs) = (lvl, m) # logged cs"
| "logged (c # cs) = logged cs"

text \<open>
  The severity order as the specification words it,
  debug < info < warn < error < fatal < panic.
\<close>

fun spec_severity_rank :: "zlevel \<Rightarrow> nat" where
  "spec_severity_rank DebugLevel = 0"
| "spec_severity_rank InfoLevel = 1"
| "spec_severity_rank WarnLevel = 2"
| "spec_severity_rank ErrorLevel = 3"
| "spec_severity_rank FatalLevel = 4"
| "spec_severity_rank PanicLevel = 5"

text \<open>The order of the library's constants, debug < info < warn < error < panic < fatal.\<close>

fun zap_severity_rank :: "zlevel \<Rightarrow> nat" where
  "zap_severity_rank DebugLevel = 0"
| "zap_severity_rank InfoLevel = 1"
| "zap_severity_rank WarnLevel = 2"
| "zap_severity_rank ErrorLevel = 3"
| "zap_severity_rank PanicLevel = 4"
| "zap_severity_rank FatalLevel = 5"

section \<open>client.go: the facade\<close>

record LoggingConfig =
  Service :: string
  Level :: string
  Namespace_cfg :: string     \<comment> \<open>the field \<^verbatim>\<open>Namespace\<close> of the Go struct\<close>
  DisableStdout :: bool
  FormatStdout :: string
  LogstashURI :: string
  LogstashProtocol :: string

definition FormatJSON :: string where
  "FormatJSON = ''json''"

definition FormatPretty :: string where
  "FormatPretty = ''pretty''"

definition DefaultConfig :: LoggingConfig where
  "DefaultConfig =
     \<lparr>Service = ''awesome-service'', Level = ''debug'', Namespace_cfg = ''awesome-namespace'',
      DisableStdout = False, FormatStdout = FormatJSON,
      LogstashURI = '''', LogstashProtocol = ''udp''\<rparr>"

text \<open>
  \<^verbatim>\<open>type loggerImpl struct { base *zap.SugaredLogger; fields Fields }\<close>.  Every
  method has a value receiver: it works on its own copy of the struct.
\<close>

record loggerImpl =
  base :: "core list"
  lfields :: Fields     \<comment> \<open>the field \<^verbatim>\<open>fields\<close> of the Go struct\<close>

text \<open>\<^verbatim>\<open>func (l loggerImpl) prepare() *zap.SugaredLogger\<close>\<close>

definition prepare :: "runtime \<Rightarrow> loggerImpl \<Rightarrow> world \<Rightarrow> core list \<times> world" where
  "prepare rt l w =
     (let (flatten, w1) = Flatten rt (lfields l) w;
          (prepared, w2) = SugaredLogger_With (elems flatten) (base l) w1;
          w3 = putFlatten flatten w2
      in (prepared, w3))"

definition Debug :: "runtime \<Rightarrow> loggerImpl \<Rightarrow> val list \<Rightarrow> world \<Rightarrow> outcome \<times> world" where
  "Debug rt l message w =
     (let (p, w1) = prepare rt l w in SugaredLogger_log p DebugLevel (Sprint message) w1)"

definition Debugf :: "runtime \<Rightarrow> loggerImpl \<Rightarrow> string \<Rightarrow> val list \<Rightarrow> world \<Rightarrow> outcome \<times> world" where
  "Debugf rt l format args w =
     (let (p, w1) = prepare rt l w in SugaredLogger_log p DebugLevel (Sprintf format args) w1)"

definition Info :: "runtime \<Rightarrow> loggerImpl \<Rightarrow> val list \<Rightarrow> world \<Rightarrow> outcome \<times> world" where
  "Info rt l message w =
     (let (p, w1) = prepare rt l w in SugaredLogger_log p InfoLevel (Sprint message) w1)"

definition Infof :: "runtime \<Rightarrow> loggerImpl \<Rightarrow> string \<Rightarrow> val list \<Rightarrow> world \<Rightarrow> outcome \<times> world" where
  "Infof rt l format args w =
     (let (p, w1) = prepare rt l w in SugaredLogger_log p InfoLevel (Sprintf format args) w1)"

definition Warn :: "runtime \<Rightarrow> loggerImpl \<Rightarrow> val list \<Rightarrow> world \<Rightarrow> outcome \<times> world" where
  "Warn rt l message w =
     (let (p, w1) = prepare rt l w in SugaredLogger_log p WarnLevel (Sprint message) w1)"

definition Warnf :: "runtime \<Rightarrow> loggerImpl \<Rightarrow> string \<Rightarrow> val list \<Rightarrow> world \<Rightarrow> outcome \<times> world" where
  "Warnf rt l format args w =
     (let (p, w1) = prepare rt l w in SugaredLogger_log p WarnLevel (Sprintf format args) w1)"

definition Error :: "runtime \<Rightarrow> loggerImpl \<Rightarrow> val list \<Rightarrow> world \<Rightarrow> outcome \<times> world" where
  "Error rt l message w =
     (let (p, w1) = prepare rt l w in SugaredLogger_log p ErrorLevel (Sprint message) w1)"

definition Errorf_log :: "runtime \<Rightarrow> loggerImpl \<Rightarrow> string \<Rightarrow> val list \<Rightarrow> world \<Rightarrow> outcome \<times> world" where
  \<comment> \<open>the method \<^verbatim>\<open>Errorf\<close>; the plain name is the constructor of \<open>fmt.Errorf\<close> errors\<close>
  "Errorf_log rt l format args w =
     (let (p, w1) = prepare rt l w in SugaredLogger_log p ErrorLevel (Sprintf format args) w1)"

definition Panic :: "runtime \<Rightarrow> loggerImpl \<Rightarrow> val list \<Rightarrow> world \<Rightarrow> outcome \<times> world" where
  "Panic rt l message w =
     (let (p, w1) = prepare rt l w in SugaredLogger_log p PanicLevel (Sprint message) w1)"

definition Panicf :: "runtime \<Rightarrow> loggerImpl \<Rightarrow> string \<Rightarrow> val list \<Rightarrow> world \<Rightarrow> outcome \<times> world" where
  "Panicf rt l format args w =
     (let (p, w1) = prepare rt l w in SugaredLogger_log p PanicLevel (Sprintf format args) w1)"

definition Fatal :: "runtime \<Rightarrow> loggerImpl \<Rightarrow> val list \<Rightarrow> world \<Rightarrow> outcome \<times> world" where
  "Fatal rt l message w =
     (let (p, w1) = prepare rt l w in SugaredLogger_log p FatalLevel (Sprint message) w1)"

definition Fatalf :: "runtime \<Rightarrow> loggerImpl \<Rightarrow> string \<Rightarrow> val list \<Rightarrow> world \<Rightarrow> outcome \<times> world" where
  "Fatalf rt l format args w =
     (let (p, w1) = prepare rt l w in SugaredLogger_log p FatalLevel (Sprintf format args) w1)"

text \<open>A leveled call of the \<^verbatim>\<open>Logger\<close> interface, and its dispatch to the method.\<close>

datatype logcall =
    CallDebug "val list" | CallDebugf string "val list"
  | CallInfo "val list" | CallInfof string "val list"
  | CallWarn "val list" | CallWarnf string "val list"
  | CallError "val list" | CallErrorf string "val list"
  | CallPanic "val list" | CallPanicf string "val list"
  | CallFatal "val list" | CallFatalf string "val list"

fun invoke :: "runtime \<Rightarrow> loggerImpl \<Rightarrow> logcall \<Rightarrow> world \<Rightarrow> outcome \<times> world" where
  "invoke rt l (CallDebug m) w = Debug rt l m w"
| "invoke rt l (CallDebugf f a) w = Debugf rt l f a w"
| "invoke rt l (CallInfo m) w = Info rt l m w"
| "invoke rt l (CallInfof f a) w = Infof rt l f a w"
| "invoke rt l (CallWarn m) w = Warn rt l m w"
| "invoke rt l (CallWarnf f a) w = Warnf rt l f a w"
| "invoke rt l (CallError m) w = Error rt l m w"
| "invoke rt l (CallErrorf f a) w = Errorf_log rt l f a w"
| "invoke rt l (CallPanic m) w = Panic rt l m w"
| "invoke rt l (CallPanicf f a) w = Panicf rt l f a w"
| "invoke rt l (CallFatal m) w = Fatal rt l m w"
| "invoke rt l (CallFatalf f a) w = Fatalf rt l f a w"

fun call_level :: "logcall \<Rightarrow> zlevel" where
  "call_level (CallDebug m) = DebugLevel"
| "call_level (CallDebugf f a) = DebugLevel"
| "call_level (CallInfo m) = InfoLevel"
| "call_level (CallInfof f a) = InfoLevel"
| "call_level (CallWarn m) = WarnLevel"
| "call_level (CallWarnf f a) = WarnLevel"
| "call_level (CallError m) = ErrorLevel"
| "call_level (CallErrorf f a) = ErrorLevel"
| "call_level (CallPanic m) = PanicLevel"
| "call_level (CallPanicf f a) = PanicLevel"
| "call_level (CallFatal m) = FatalLevel"
| "call_level (CallFatalf f a) = FatalLevel"

fun call_msg :: "logcall \<Rightarrow> msg" where
  "call_msg (CallDebug m) = Sprint m"
| "call_msg (CallDebugf f a) = Sprintf f a"
| "call_msg (CallInfo m) = Sprint m"
| "call_msg (CallInfof f a) = Sprintf f a"
| "call_msg (CallWarn m) = Sprint m"
| "call_msg (CallWarnf f a) = Sprintf f a"
| "call_msg (CallError m) = Sprint m"
| "call_msg (CallErrorf f a) = Sprintf f a"
| "call_msg (CallPanic m) = Sprint m"
| "call_msg (CallPanicf f a) = Sprintf f a"
| "call_msg (CallFatal m) = Sprint m"
| "call_msg (CallFatalf f a) = Sprintf f a"

text \<open>
  \<^verbatim>\<open>func (l loggerImpl) With(fields Fields) Logger\<close>.  The assignment
  \<^verbatim>\<open>l.fields = ...\<close> changes the method's copy of the struct, which is returned.
\<close>

definition With :: "string list \<Rightarrow> string list \<Rightarrow> loggerImpl \<Rightarrow> Fields \<Rightarrow> world \<Rightarrow> loggerImpl \<times> world" where
  "With ks ns l fs w =
     (let (m, w1) = Merge ks ns (lfields l) fs w
      in (l\<lparr>lfields := m\<rparr>, w1))"

text \<open>A composite literal \<^verbatim>\<open>Fields{k1: v1, ...}\<close>: a new map holding the entries.\<close>

definition Fields_literal :: "(string \<times> val) list \<Rightarrow> world \<Rightarrow> Fields \<times> world" where
  "Fields_literal kvs w =
     (let (a, w1) = make_map w
      in (Some a, fold (\<lambda>(k, v). map_assign a k v) kvs w1))"

text \<open>
  \<^verbatim>\<open>func (l loggerImpl) Namespace(namespace string) Logger\<close>.  The literal has one
  key, so the loop of \<open>Merge\<close> over it has one possible order.
\<close>

definition Namespace :: "string list \<Rightarrow> loggerImpl \<Rightarrow> string \<Rightarrow> world \<Rightarrow> loggerImpl \<times> world" where
  "Namespace ks l namespace w =
     (let (lit, w1) = Fields_literal [(''namespace'', VStr namespace)] w;
          (m, w2) = Merge ks [''namespace''] (lfields l) lit w1
      in (l\<lparr>lfields := m\<rparr>, w2))"

text \<open>\<^verbatim>\<open>func (l loggerImpl) GetField(fieldName string) (value interface{}, ok bool)\<close>\<close>

definition GetField :: "loggerImpl \<Rightarrow> string \<Rightarrow> world \<Rightarrow> val \<times> bool" where
  "GetField l fieldName w =
     (case load w (lfields l) fieldName of
        None \<Rightarrow> (VNil, False)
      | Some v \<Rightarrow> (v, True))"

text \<open>\<^verbatim>\<open>func (l loggerImpl) Trace(err error)\<close>; \<open>None\<close> is the nil error.\<close>

definition Trace :: "runtime \<Rightarrow> loggerImpl \<Rightarrow> goerror option \<Rightarrow> world \<Rightarrow> outcome \<times> world" where
  "Trace rt l err w =
     (case err of
        None \<Rightarrow> (Returned, w)
      | Some e \<Rightarrow> Errorf_log rt l ''%+v'' [VError (WithStack e)] w)"

text \<open>
  \<^verbatim>\<open>func (l loggerImpl) Recover(msg string)\<close>.  \<open>i\<close> is what the built-in
  \<^verbatim>\<open>recover()\<close> returns: the payload of the panic that is unwinding, or nil when
  there is none.  \<open>rt\<close> serves the call of \<open>Trace\<close>, \<open>rt'\<close> the call of
  \<open>Panicf\<close>; when a call does not return, the statements after it do not run.
\<close>

definition Recover ::
    "runtime \<Rightarrow> runtime \<Rightarrow> loggerImpl \<Rightarrow> string \<Rightarrow> val \<Rightarrow> world \<Rightarrow> outcome \<times> world" where
  "Recover rt rt' l m i w =
     (if i \<noteq> VNil
      then (let (traced, w1) =
                  (case i of
                     VError v \<Rightarrow> Trace rt l (Some v) w
                   | VStr v \<Rightarrow> Trace rt l (Some (ErrorsNew v)) w
                   | _ \<Rightarrow> (Returned, w))
            in (case traced of
                  Returned \<Rightarrow> Panicf rt' l ''recovered %s from %v'' [VStr m, i] w1
                | _ \<Rightarrow> (traced, w1)))
      else (Returned, w))"

text \<open>A panic payload that is neither nil, nor an error, nor a string.\<close>

definition other_payload :: "val \<Rightarrow> bool" where
  "other_payload i = (case i of VNil \<Rightarrow> False | VError e \<Rightarrow> False | VStr s \<Rightarrow> False | _ \<Rightarrow> True)"

text \<open>
  The records the sinks of a logger write for one leveled call made in the world
  \<open>w\<close>: every sink whose enabler admits the level writes one entry, carrying
  the sink's own fields followed by the flattened field context of the logger.
\<close>

definition sink_records ::
    "runtime \<Rightarrow> loggerImpl \<Rightarrow> zlevel \<Rightarrow> msg \<Rightarrow> world \<Rightarrow> (writer \<times> encoder \<times> entry) list" where
  "sink_records rt l lvl m w =
     concat (map (core_write lvl m)
                 (tee_With (sweetenFields (elems (fst (Flatten rt (lfields l) w)))) (base l)))"

text \<open>Where, at which level and with which message the records of a list were written.\<close>

definition record_heads :: "(writer \<times> encoder \<times> entry) list \<Rightarrow> (writer \<times> zlevel \<times> msg) list" where
  "record_heads rs = map (\<lambda>(wr, en, r). (wr, entry_level r, entry_message r)) rs"

section \<open>client.go: the factory\<close>

text \<open>\<^verbatim>\<open>log.Println(line)\<close> of the standard library.\<close>

definition Println :: "string \<Rightarrow> world \<Rightarrow> world" where
  "Println line w = w\<lparr>stdlog := stdlog w @ [line]\<rparr>"

text \<open>\<^verbatim>\<open>func getFormat(format string) (string, error)\<close>\<close>

definition getFormat :: "string \<Rightarrow> string \<times> goerror option" where
  "getFormat format =
     (if format = '''' then (FormatJSON, None)
      else if format \<noteq> FormatJSON \<and> format \<noteq> FormatPretty
      then ('''', Some (Errorf ''invalid FormatStdout %v, must be %v or %v''
                               [format, FormatJSON, FormatPretty]))
      else (format, None))"

text \<open>
  \<^verbatim>\<open>func getLevel(level string) (zapcore.Level, error)\<close>; the \<^verbatim>\<open>0\<close> returned
  beside the error is \<open>InfoLevel\<close>.
\<close>

definition getLevel :: "string \<Rightarrow> zlevel \<times> goerror option" where
  "getLevel level =
     (if level = ''debug'' then (DebugLevel, None)
      else if level = ''info'' then (InfoLevel, None)
      else if level = ''warn'' then (WarnLevel, None)
      else if level = ''error'' then (ErrorLevel, None)
      else if level = ''fatal'' then (FatalLevel, None)
      else if level = ''panic'' then (PanicLevel, None)
      else (InfoLevel, Some (Errorf ''bad logging level %v'' [level])))"

text \<open>
  \<^verbatim>\<open>func newEncoderConfig() zapcore.EncoderConfig\<close>: the production configuration
  of the library with the message key, the time key and the time layout replaced.
\<close>

definition NewProductionEncoderConfig :: encoderConfig where
  "NewProductionEncoderConfig =
     \<lparr>MessageKey = ''msg'', TimeKey = ''ts'', LevelKey = ''level'', TimeLayout = ''epoch''\<rparr>"

definition newEncoderConfig :: encoderConfig where
  "newEncoderConfig =
     NewProductionEncoderConfig
       \<lparr>MessageKey := ''message'', TimeKey := ''@timestamp'', TimeLayout := ''RFC3339Nano''\<rparr>"

text \<open>\<^verbatim>\<open>func newStdoutCore(zapLevel zapcore.Level, format string) zapcore.Core\<close>\<close>

definition newStdoutCore :: "zlevel \<Rightarrow> string \<Rightarrow> core" where
  "newStdoutCore zapLevel format =
     (let levelEnabler = (\<lambda>level. level_int level \<ge> level_int zapLevel);
          console = Stdout;
          encoderConfig = newEncoderConfig;
          encoder = (if format = FormatJSON then JSONEncoder encoderConfig
                     else ConsoleEncoder encoderConfig)
      in NewCore encoder console levelEnabler)"

text \<open>
  \<^verbatim>\<open>func newLogstashCore(zapLevel zapcore.Level, protocol, addr string) (zapcore.Core, error)\<close>.
  \<open>dial\<close> is the outcome of \<^verbatim>\<open>net.Dial\<close>: \<open>None\<close> for a connection, or its error.
\<close>

definition newLogstashCore ::
    "(string \<Rightarrow> string \<Rightarrow> goerror option) \<Rightarrow> zlevel \<Rightarrow> string \<Rightarrow> string \<Rightarrow> core option \<times> goerror option" where
  "newLogstashCore dial zapLevel protocol addr =
     (case dial protocol addr of
        Some err \<Rightarrow> (None, Some err)
      | None \<Rightarrow>
          (let levelEnabler = (\<lambda>level. level_int level \<ge> level_int zapLevel);
               logstashEncoder = JSONEncoder newEncoderConfig;
               tcpWriter = Conn protocol addr;
               logstashCore =
                 core_With [(''@version'', VStr ''1''), (''type'', VStr ''log'')]
                   (NewCore logstashEncoder tcpWriter levelEnabler)
           in (Some logstashCore, None)))"

text \<open>
  \<^verbatim>\<open>func newZapLogger(zapLevel, service, logstashProtocol, logstashURI, disableStdout, formatStdout) (*zap.Logger, error)\<close>.
  \<open>newLogstashCore\<close> never returns a nil core without an error.
\<close>

definition newZapLogger ::
    "(string \<Rightarrow> string \<Rightarrow> goerror option) \<Rightarrow> zlevel \<Rightarrow> string \<Rightarrow> string \<Rightarrow> string \<Rightarrow> bool \<Rightarrow> string \<Rightarrow>
     world \<Rightarrow> (core list option \<times> goerror option) \<times> world" where
  "newZapLogger dial zapLevel service logstashProtocol logstashURI disableStdout formatStdout w =
     (let cores = (if \<not> disableStdout then [newStdoutCore zapLevel formatStdout] else []);
          finish = (\<lambda>cs. Some (tee_With [(''service'', VStr service)] (NewTee cs)))
      in if logstashURI \<noteq> ''''
         then (let w1 = Println ''using logstash, should not be used in production'' w
               in (case newLogstashCore dial zapLevel logstashProtocol logstashURI of
                     (c, Some err) \<Rightarrow> ((None, Some err), w1)
                   | (Some logstashCore, None) \<Rightarrow> ((finish (cores @ [logstashCore]), None), w1)
                   | (None, None) \<Rightarrow> ((finish cores, None), w1)))
         else ((finish cores, None), w))"

text \<open>\<^verbatim>\<open>func New(config LoggingConfig) (logger Logger, err error)\<close>\<close>

definition level_warning :: string where
  "level_warning = ''logging level not set, using '' @ [CHR 0x27] @ ''info'' @ [CHR 0x27]"

definition New ::
    "(string \<Rightarrow> string \<Rightarrow> goerror option) \<Rightarrow> LoggingConfig \<Rightarrow> world \<Rightarrow>
     (loggerImpl option \<times> goerror option) \<times> world" where
  "New dial config w =
     (let (level, w1) = (if Level config = '''' then (''info'', Println level_warning w)
                         else (Level config, w))
      in (case getFormat (FormatStdout config) of
            (format, Some err) \<Rightarrow> ((None, Some err), w1)
          | (format, None) \<Rightarrow>
              (case getLevel level of
                 (zapLevel, Some err) \<Rightarrow> ((None, Some err), w1)
               | (zapLevel, None) \<Rightarrow>
                   (case newZapLogger dial zapLevel (Service config) (LogstashProtocol config)
                           (LogstashURI config) (DisableStdout config) format w1 of
                      ((z, Some err), w2) \<Rightarrow> ((None, Some err), w2)
                    | ((None, None), w2) \<Rightarrow> ((None, None), w2)
                    | ((Some zapLogger, None), w2) \<Rightarrow>
                        (let (fs, w3) = Fields_literal [(''namespace'', VStr (Namespace_cfg config))] w2
                         in ((Some \<lparr>base = zapLogger, lfields = fs\<rparr>, None), w3))))))"

text \<open>
  The error classes of the specification.  A \<open>ConfigError\<close> is an error for
  an invalid level or format name; in the code these are the two errors made by
  \<open>getFormat\<close> and \<open>getLevel\<close>.
\<close>

definition ConfigError :: "goerror \<Rightarrow> bool" where
  "ConfigError e =
     (case e of
        Errorf format args \<Rightarrow>
          format = ''invalid FormatStdout %v, must be %v or %v'' \<or> format = ''bad logging level %v''
      | _ \<Rightarrow> False)"

text \<open>The world before the program has done anything.\<close>

definition initial_world :: world where
  "initial_world =
     \<lparr>heap = [], flattenPool = [], nextPtr = 1, stdlog = [], written = [], calls = []\<rparr>"

section \<open>Concrete inputs\<close>

text \<open>A store with two maps, \<open>{a: 1, b: 2}\<close> at address 0 and \<open>{b: 3, c: 4}\<close> at address 1.\<close>

definition store_ab :: world where
  "store_ab = initial_world\<lparr>heap := [[''a'' \<mapsto> VInt 1, ''b'' \<mapsto> VInt 2],
                                [''b'' \<mapsto> VInt 3, ''c'' \<mapsto> VInt 4]]\<rparr>"

text \<open>The mapping of the test case \<^verbatim>\<open>ignore fields\<close>.\<close>

definition ignore_fields_case :: "string \<rightharpoonup> val" where
  "ignore_fields_case =
     [''1'' \<mapsto> VInt 1, ''namespace'' \<mapsto> VStr ''awesome'', ''@timestamp'' \<mapsto> VStr ''x'',
      ''message'' \<mapsto> VStr ''x'', ''level'' \<mapsto> VStr ''x'', ''service'' \<mapsto> VStr ''x'']"

text \<open>A store holding that mapping at address 0 and a mapping of reserved keys at address 1.\<close>

definition store_case :: world where
  "store_case = initial_world\<lparr>heap := [ignore_fields_case,
                                [''@timestamp'' \<mapsto> VStr ''x'', ''level'' \<mapsto> VStr ''x'']]\<rparr>"

definition run_fresh :: runtime where
  "run_fresh = \<lparr>poolPick = None,
          rangeOrder = [''level'', ''namespace'', ''service'', ''1'', ''@timestamp'', ''message''],
          growCap = (\<lambda>c n. n + n)\<rparr>"


text \<open>A logger over one console sink at level info, with the mapping at address 0.\<close>

definition logger_case :: loggerImpl where
  "logger_case = \<lparr>base = [newStdoutCore InfoLevel FormatJSON], lfields = Some 0\<rparr>"

text \<open>
  A store with the field context \<open>{namespace: default}\<close> of a new logger at
  address 0 and the two mappings \<open>{a: 1}\<close> and \<open>{b: 2}\<close> at addresses 1 and 2.
\<close>

definition store_with :: world where
  "store_with = initial_world\<lparr>heap := [[''namespace'' \<mapsto> VStr ''default''],
                                        [''a'' \<mapsto> VInt 1], [''b'' \<mapsto> VInt 2]]\<rparr>"

definition logger_default :: loggerImpl where
  "logger_default = \<lparr>base = [newStdoutCore InfoLevel FormatJSON], lfields = Some 0\<rparr>"

text \<open>A network on which every dial succeeds, and one on which every dial fails.\<close>

definition dial_ok :: "string \<Rightarrow> string \<Rightarrow> goerror option" where
  "dial_ok protocol addr = None"


text \<open>The configuration with nothing set, and one with a level name that does not exist.\<close>

definition unset_config :: LoggingConfig where
  "unset_config =
     \<lparr>Service = ''testing'', Level = '''', Namespace_cfg = ''default'',
      DisableStdout = False, FormatStdout = '''', LogstashURI = '''', LogstashProtocol = ''''\<rparr>"

definition bogus_config :: LoggingConfig where
  "bogus_config = DefaultConfig\<lparr>Level := ''bogus''\<rparr>"


definition quiet_logger :: loggerImpl where
  "quiet_logger = \<lparr>base = [], lfields = Some 0\<rparr>"

definition quiet_world :: world where
  "quiet_world = initial_world\<lparr>heap := [[''namespace'' \<mapsto> VStr ''default'']]\<rparr>"

text \<open>A run for a field context that holds the namespace only.\<close>

definition run_ns :: runtime where
  "run_ns = \<lparr>poolPick = None, rangeOrder = [''namespace''], growCap = (\<lambda>c n. n + n)\<rparr>"

section \<open>Properties of the store\<close>

lemma range_assign_frame:
  "flattenPool (range_assign ks src dst w) = flattenPool w \<and>
   nextPtr (range_assign ks src dst w) = nextPtr w \<and>
   stdlog (range_assign ks src dst w) = stdlog w \<and>
   written (range_assign ks src dst w) = written w \<and>
   calls (range_assign ks src dst w) = calls w \<and>
   length (heap (range_assign ks src dst w)) = length (heap w)"
  by (induction ks arbitrary: w) (auto simp: map_assign_def split: option.splits)

lemma range_assign_other:
  "a \<noteq> dst \<Longrightarrow> heap (range_assign ks src dst w) ! a = heap w ! a"
  by (induction ks arbitrary: w) (auto simp: map_assign_def split: option.splits)

lemma range_assign_dst:
  assumes "dst < length (heap w)" and "src \<noteq> Some dst"
  shows "heap (range_assign ks src dst w) ! dst = (heap w ! dst) ++ (load w src |` set ks)"
  using assms
proof (induction ks arbitrary: w)
  case Nil
  then show ?case by simp
next
  case (Cons k ks)
  show ?case
  proof (cases "load w src k")
    case None
    have "load w src |` set (k # ks) = load w src |` set ks"
      using None by (auto simp: restrict_map_def fun_eq_iff)
    with None Cons show ?thesis by simp
  next
    case (Some v)
    let ?w = "map_assign dst k v w"
    have len: "dst < length (heap ?w)"
      using Cons.prems by (simp add: map_assign_def)
    have same: "load ?w src = load w src"
      using Cons.prems by (cases src) (auto simp: load_def map_assign_def)
    have "heap (range_assign ks src dst ?w) ! dst = (heap ?w ! dst) ++ (load ?w src |` set ks)"
      using Cons.IH [OF len Cons.prems(2)] .
    also have "heap ?w ! dst = (heap w ! dst)(k \<mapsto> v)"
      using Cons.prems by (simp add: map_assign_def)
    also have "(heap w ! dst)(k \<mapsto> v) ++ (load ?w src |` set ks)
                 = (heap w ! dst) ++ (load w src |` set (k # ks))"
      using Some same
      by (auto simp: map_add_def restrict_map_def fun_eq_iff split: option.splits)
    finally show ?thesis using Some by simp
  qed
qed

lemma restrict_iteration_order:
  "iteration_order m ks \<Longrightarrow> m |` set ks = m"
  by (auto simp: iteration_order_def restrict_map_def fun_eq_iff domIff)

lemma Copy_spec:
  assumes "valid_ref w f" and "iteration_order (load w f) ks"
  shows "fst (Copy ks f w) = Some (length (heap w))"
    and "load (snd (Copy ks f w)) (fst (Copy ks f w)) = load w f"
    and "length (heap (snd (Copy ks f w))) = Suc (length (heap w))"
    and "\<And>a. a < length (heap w) \<Longrightarrow> heap (snd (Copy ks f w)) ! a = heap w ! a"
proof -
  let ?n = "length (heap w)"
  let ?w1 = "w\<lparr>heap := heap w @ [Map.empty]\<rparr>"
  have copy: "Copy ks f w = (Some ?n, range_assign ks f ?n ?w1)"
    by (simp add: Copy_def make_map_def)
  show "fst (Copy ks f w) = Some ?n" by (simp add: copy)
  have ne: "f \<noteq> Some ?n" using assms(1) by (auto simp: valid_ref_def)
  have ld: "load ?w1 f = load w f"
    using assms(1) by (cases f) (auto simp: load_def valid_ref_def nth_append)
  have "heap (range_assign ks f ?n ?w1) ! ?n = (heap ?w1 ! ?n) ++ (load ?w1 f |` set ks)"
    by (rule range_assign_dst) (use ne in simp_all)
  then have "heap (range_assign ks f ?n ?w1) ! ?n = load w f"
    using restrict_iteration_order [OF assms(2)] by (simp add: ld)
  then show "load (snd (Copy ks f w)) (fst (Copy ks f w)) = load w f"
    by (simp add: copy load_def)
  show "length (heap (snd (Copy ks f w))) = Suc ?n"
    by (simp add: copy range_assign_frame)
  show "\<And>a. a < ?n \<Longrightarrow> heap (snd (Copy ks f w)) ! a = heap w ! a"
    by (simp add: copy range_assign_other nth_append)
qed

lemma Copy_frame:
  "flattenPool (snd (Copy ks f w)) = flattenPool w \<and>
   nextPtr (snd (Copy ks f w)) = nextPtr w \<and>
   stdlog (snd (Copy ks f w)) = stdlog w \<and>
   written (snd (Copy ks f w)) = written w \<and>
   calls (snd (Copy ks f w)) = calls w"
  by (simp add: Copy_def make_map_def range_assign_frame)

lemma Merge_spec:
  assumes "valid_ref w f" and "valid_ref w n"
    and "iteration_order (load w f) ks" and "iteration_order (load w n) ns"
  shows "fst (Merge ks ns f n w) = Some (length (heap w))"
    and "load (snd (Merge ks ns f n w)) (fst (Merge ks ns f n w)) = load w f ++ load w n"
    and "length (heap (snd (Merge ks ns f n w))) = Suc (length (heap w))"
    and "\<And>a. a < length (heap w) \<Longrightarrow> heap (snd (Merge ks ns f n w)) ! a = heap w ! a"
proof -
  let ?c = "length (heap w)"
  let ?w1 = "snd (Copy ks f w)"
  note cs = Copy_spec [OF assms(1) assms(3)]
  have merge: "Merge ks ns f n w = (Some ?c, range_assign ns n ?c ?w1)"
    using cs(1) by (simp add: Merge_def split_beta Let_def)
  show "fst (Merge ks ns f n w) = Some ?c" by (simp add: merge)
  have ne: "n \<noteq> Some ?c" using assms(2) by (auto simp: valid_ref_def)
  have ld: "load ?w1 n = load w n"
    using assms(2) cs(4) by (cases n) (auto simp: load_def valid_ref_def)
  have c1: "heap ?w1 ! ?c = load w f"
    using cs(1) cs(2) by (simp add: load_def)
  have "heap (range_assign ns n ?c ?w1) ! ?c = (heap ?w1 ! ?c) ++ (load ?w1 n |` set ns)"
    by (rule range_assign_dst) (use ne cs(3) in simp_all)
  then have "heap (range_assign ns n ?c ?w1) ! ?c = load w f ++ load w n"
    using restrict_iteration_order [OF assms(4)] by (simp add: ld c1)
  then show "load (snd (Merge ks ns f n w)) (fst (Merge ks ns f n w)) = load w f ++ load w n"
    by (simp add: merge load_def)
  show "length (heap (snd (Merge ks ns f n w))) = Suc ?c"
    by (simp add: merge range_assign_frame cs(3))
  show "\<And>a. a < ?c \<Longrightarrow> heap (snd (Merge ks ns f n w)) ! a = heap w ! a"
    by (simp add: merge range_assign_other cs(4))
qed

lemma Merge_frame:
  "flattenPool (snd (Merge ks ns f n w)) = flattenPool w \<and>
   nextPtr (snd (Merge ks ns f n w)) = nextPtr w \<and>
   stdlog (snd (Merge ks ns f n w)) = stdlog w \<and>
   written (snd (Merge ks ns f n w)) = written w \<and>
   calls (snd (Merge ks ns f n w)) = calls w"
  using Copy_frame [of ks f w]
  by (auto simp: Merge_def split_beta Let_def range_assign_frame split: option.splits)

lemma load_preserved:
  assumes "valid_ref w g" and "\<And>a. a < length (heap w) \<Longrightarrow> heap w' ! a = heap w ! a"
  shows "load w' g = load w g"
  using assms by (cases g) (auto simp: load_def valid_ref_def)

text \<open>The definitions that evaluate the store operations on a concrete store.\<close>

lemmas store_eval = valid_ref_def load_def make_map_def map_assign_def iteration_order_def
  Copy_def Merge_def initial_world_def

lemma valid_ref_mono:
  "valid_ref w g \<Longrightarrow> length (heap w) \<le> length (heap w') \<Longrightarrow> valid_ref w' g"
  by (cases g) (auto simp: valid_ref_def)

lemma With_spec:
  assumes "valid_ref w (lfields l)" and "valid_ref w fs"
    and "iteration_order (load w (lfields l)) ks" and "iteration_order (load w fs) ns"
  shows "lfields (fst (With ks ns l fs w)) = Some (length (heap w))"
    and "base (fst (With ks ns l fs w)) = base l"
    and "load (snd (With ks ns l fs w)) (lfields (fst (With ks ns l fs w)))
           = load w (lfields l) ++ load w fs"
    and "length (heap (snd (With ks ns l fs w))) = Suc (length (heap w))"
    and "\<And>g. valid_ref w g \<Longrightarrow> load (snd (With ks ns l fs w)) g = load w g"
proof -
  note ms = Merge_spec [OF assms]
  have w: "With ks ns l fs w =
             (l\<lparr>lfields := fst (Merge ks ns (lfields l) fs w)\<rparr>, snd (Merge ks ns (lfields l) fs w))"
    by (simp add: With_def split_beta)
  show "lfields (fst (With ks ns l fs w)) = Some (length (heap w))"
    by (simp add: w ms(1))
  show "base (fst (With ks ns l fs w)) = base l"
    by (simp add: w)
  show "load (snd (With ks ns l fs w)) (lfields (fst (With ks ns l fs w)))
           = load w (lfields l) ++ load w fs"
    using ms(2) by (simp add: w)
  show "length (heap (snd (With ks ns l fs w))) = Suc (length (heap w))"
    using ms(3) by (simp add: w)
  show "load (snd (With ks ns l fs w)) g = load w g" if "valid_ref w g" for g
    using that ms(4) by (intro load_preserved) (simp_all add: w)
qed

section \<open>Properties of Flatten\<close>


lemma append2_frame:
  "heap (snd (append2 g s k v w)) = heap w \<and>
   flattenPool (snd (append2 g s k v w)) = flattenPool w \<and>
   stdlog (snd (append2 g s k v w)) = stdlog w \<and>
   written (snd (append2 g s k v w)) = written w \<and>
   calls (snd (append2 g s k v w)) = calls w"
  by (simp add: append2_def)

lemma append2_elems: "elems (fst (append2 g s k v w)) = elems s @ [k, v]"
  by (simp add: append2_def)

lemma load_heap_eq: "heap w' = heap w \<Longrightarrow> load w' f = load w f"
  by (cases f) (simp_all add: load_def)

lemma append2_load: "load (snd (append2 g s k v w)) f = load w f"
  by (rule load_heap_eq) (simp add: append2_frame)

lemma Flatten_loop_frame:
  "heap (snd (Flatten_loop g ks f list w)) = heap w \<and>
   flattenPool (snd (Flatten_loop g ks f list w)) = flattenPool w \<and>
   stdlog (snd (Flatten_loop g ks f list w)) = stdlog w \<and>
   written (snd (Flatten_loop g ks f list w)) = written w \<and>
   calls (snd (Flatten_loop g ks f list w)) = calls w"
proof (induction ks arbitrary: list w)
  case Nil
  show ?case by simp
next
  case (Cons k ks)
  show ?case
    using Cons.IH append2_frame
    by (simp add: split_beta split: option.splits)
qed

lemma Flatten_loop_elems:
  "elems (fst (Flatten_loop g ks f list w)) = elems list @ flatten_of (load w f) ks"
proof (induction ks arbitrary: list w)
  case Nil
  show ?case by (simp add: flatten_of_def)
next
  case (Cons k ks)
  have tl: "flatten_of m (k # ks) =
      (case m k of None \<Rightarrow> [] | Some v \<Rightarrow> (case ignore k of None \<Rightarrow> [VStr k, v] | Some ok \<Rightarrow> []))
      @ flatten_of m ks" for m
    by (simp add: flatten_of_def)
  show ?case
    using Cons.IH
    by (simp add: tl split_beta append2_elems append2_load split: option.splits)
qed

lemma kv_pairs_flatten_of:
  "kv_pairs (flatten_of m ks) =
     List.map_filter (\<lambda>k. case m k of None \<Rightarrow> None
                           | Some v \<Rightarrow> (case ignore k of None \<Rightarrow> Some (VStr k, v) | Some ok \<Rightarrow> None)) ks"
  by (induction ks) (auto simp: flatten_of_def List.map_filter_simps split: option.splits)



lemma set_kv_pairs_flatten_of:
  "set (kv_pairs (flatten_of m ks)) =
     {(VStr k, v) | k v. k \<in> set ks \<and> m k = Some v \<and> ignore k = None}"
  by (induction ks) (auto simp: flatten_of_def split: option.splits)

lemma keys_flatten_of:
  "map fst (kv_pairs (flatten_of m ks)) =
     map VStr (filter (\<lambda>k. m k \<noteq> None \<and> ignore k = None) ks)"
  by (induction ks) (auto simp: flatten_of_def split: option.splits)

lemma distinct_keys_flatten_of:
  "distinct ks \<Longrightarrow> distinct (map fst (kv_pairs (flatten_of m ks)))"
  by (simp add: keys_flatten_of distinct_map inj_on_def)

lemma Get_elems:
  "pool_empty w \<Longrightarrow> elems (fst (flattenPool_Get p w)) = []"
  by (auto simp: pool_empty_def flattenPool_Get_def flattenPool_New_def list_all_length
           split: option.splits)

lemma Get_frame:
  "heap (snd (flattenPool_Get p w)) = heap w \<and>
   nextPtr (snd (flattenPool_Get p w)) = nextPtr w \<and>
   stdlog (snd (flattenPool_Get p w)) = stdlog w \<and>
   written (snd (flattenPool_Get p w)) = written w \<and>
   calls (snd (flattenPool_Get p w)) = calls w @ [PoolGet (fst (flattenPool_Get p w))]"
  by (simp add: flattenPool_Get_def split_beta)

lemma Flatten_elems:
  "elems (fst (Flatten rt f w)) =
     elems (fst (flattenPool_Get (poolPick rt) w)) @ flatten_of (load w f) (rangeOrder rt)"
proof -
  have "load (snd (flattenPool_Get (poolPick rt) w)) f = load w f"
    by (rule load_heap_eq) (simp add: Get_frame)
  then show ?thesis
    by (simp add: Flatten_def split_beta Flatten_loop_elems)
qed

lemma Flatten_frame:
  "heap (snd (Flatten rt f w)) = heap w \<and>
   flattenPool (snd (Flatten rt f w)) = flattenPool (snd (flattenPool_Get (poolPick rt) w)) \<and>
   stdlog (snd (Flatten rt f w)) = stdlog w \<and>
   written (snd (Flatten rt f w)) = written w \<and>
   calls (snd (Flatten rt f w)) = calls w @ [PoolGet (fst (flattenPool_Get (poolPick rt) w))]"
  by (simp add: Flatten_def split_beta Flatten_loop_frame Get_frame)





section \<open>Properties of the leveled calls\<close>

lemma Put_frame:
  "heap (flattenPool_Put s w) = heap w \<and>
   flattenPool (flattenPool_Put s w) = flattenPool w @ [s] \<and>
   nextPtr (flattenPool_Put s w) = nextPtr w \<and>
   stdlog (flattenPool_Put s w) = stdlog w \<and>
   written (flattenPool_Put s w) = written w \<and>
   calls (flattenPool_Put s w) = calls w @ [PoolPut s]"
  by (simp add: flattenPool_Put_def)

lemma prepare_spec:
  "fst (prepare rt l w) =
     tee_With (sweetenFields (elems (fst (Flatten rt (lfields l) w)))) (base l)"
  "heap (snd (prepare rt l w)) = heap w"
  "stdlog (snd (prepare rt l w)) = stdlog w"
  "written (snd (prepare rt l w)) = written w"
  "flattenPool (snd (prepare rt l w)) =
     flattenPool (snd (flattenPool_Get (poolPick rt) w))
       @ [(fst (Flatten rt (lfields l) w))\<lparr>elems := []\<rparr>]"
  "calls (snd (prepare rt l w)) =
     calls w @ [PoolGet (fst (flattenPool_Get (poolPick rt) w)),
                SugarWith (elems (fst (Flatten rt (lfields l) w))),
                PoolPut ((fst (Flatten rt (lfields l) w))\<lparr>elems := []\<rparr>)]"
  by (simp_all add: prepare_def split_beta SugaredLogger_With_def putFlatten_def
                    Put_frame Flatten_frame)

lemma invoke_eq:
  "invoke rt l c w =
     SugaredLogger_log (fst (prepare rt l w)) (call_level c) (call_msg c) (snd (prepare rt l w))"
  by (cases c)
     (simp_all add: split_beta Debug_def Debugf_def Info_def Infof_def Warn_def Warnf_def
        Error_def Errorf_log_def Panic_def Panicf_def Fatal_def Fatalf_def)

lemma log_frame:
  "heap (snd (SugaredLogger_log s lvl m w)) = heap w"
  "stdlog (snd (SugaredLogger_log s lvl m w)) = stdlog w"
  "flattenPool (snd (SugaredLogger_log s lvl m w)) = flattenPool w"
  "nextPtr (snd (SugaredLogger_log s lvl m w)) = nextPtr w"
  "calls (snd (SugaredLogger_log s lvl m w)) = calls w @ [SugarLog lvl m]"
  "written (snd (SugaredLogger_log s lvl m w)) = written w @ concat (map (core_write lvl m) s)"
  "fst (SugaredLogger_log s lvl m w) =
     (case lvl of PanicLevel \<Rightarrow> Panicked m | FatalLevel \<Rightarrow> Exited 1 | _ \<Rightarrow> Returned)"
  by (simp_all add: SugaredLogger_log_def Let_def split: zlevel.splits)

lemma Get_pool_empty:
  "pool_empty w \<Longrightarrow> pool_empty (snd (flattenPool_Get p w))"
  by (auto simp: pool_empty_def flattenPool_Get_def list_all_iff
           dest: in_set_takeD in_set_dropD split: option.splits)

lemma invoke_spec:
  "heap (snd (invoke rt l c w)) = heap w"
  "stdlog (snd (invoke rt l c w)) = stdlog w"
  "flattenPool (snd (invoke rt l c w)) =
     flattenPool (snd (flattenPool_Get (poolPick rt) w))
       @ [(fst (Flatten rt (lfields l) w))\<lparr>elems := []\<rparr>]"
  "calls (snd (invoke rt l c w)) =
     calls w @ [PoolGet (fst (flattenPool_Get (poolPick rt) w)),
                SugarWith (elems (fst (Flatten rt (lfields l) w))),
                PoolPut ((fst (Flatten rt (lfields l) w))\<lparr>elems := []\<rparr>),
                SugarLog (call_level c) (call_msg c)]"
  "written (snd (invoke rt l c w)) =
     written w @ concat (map (core_write (call_level c) (call_msg c)) (fst (prepare rt l w)))"
  "fst (invoke rt l c w) =
     (case call_level c of PanicLevel \<Rightarrow> Panicked (call_msg c) | FatalLevel \<Rightarrow> Exited 1
      | _ \<Rightarrow> Returned)"
  by (simp_all add: invoke_eq log_frame prepare_spec)

lemma invoke_pool_empty:
  assumes "pool_empty w"
  shows "pool_empty (snd (invoke rt l c w))"
  using Get_pool_empty [OF assms, of "poolPick rt"]
  by (simp add: pool_empty_def invoke_spec)


lemma Fields_literal_one:
  "Fields_literal [(k, v)] w =
     (Some (length (heap w)), w\<lparr>heap := heap w @ [[k \<mapsto> v]]\<rparr>)"
  by (simp add: Fields_literal_def make_map_def map_assign_def)

lemma Namespace_as_With:
  "Namespace ks l name w =
     (case Fields_literal [(''namespace'', VStr name)] w of
        (lit, w1) \<Rightarrow> With ks [''namespace''] l lit w1)"
  by (simp add: Namespace_def With_def split_beta)

lemma Namespace_spec:
  assumes "valid_ref w (lfields l)" and "iteration_order (load w (lfields l)) ks"
  shows "base (fst (Namespace ks l name w)) = base l"
    and "load (snd (Namespace ks l name w)) (lfields (fst (Namespace ks l name w)))
           = (load w (lfields l))(''namespace'' \<mapsto> VStr name)"
    and "valid_ref (snd (Namespace ks l name w)) (lfields (fst (Namespace ks l name w)))"
    and "\<And>g. valid_ref w g \<Longrightarrow> load (snd (Namespace ks l name w)) g = load w g"
    and "\<And>g. valid_ref w g \<Longrightarrow> valid_ref (snd (Namespace ks l name w)) g"
proof -
  let ?n = "length (heap w)"
  let ?w1 = "w\<lparr>heap := heap w @ [[''namespace'' \<mapsto> VStr name]]\<rparr>"
  have ns: "Namespace ks l name w = With ks [''namespace''] l (Some ?n) ?w1"
    by (simp add: Namespace_as_With Fields_literal_one)
  have keep: "load ?w1 g = load w g" if "valid_ref w g" for g
    using that by (intro load_preserved) (simp_all add: nth_append)
  have v1: "valid_ref ?w1 (lfields l)"
    using assms(1) by (rule valid_ref_mono) simp
  have v2: "valid_ref ?w1 (Some ?n)" by (simp add: valid_ref_def)
  have lit: "load ?w1 (Some ?n) = [''namespace'' \<mapsto> VStr name]"
    by (simp add: load_def)
  have o1: "iteration_order (load ?w1 (lfields l)) ks"
    using assms keep by simp
  have o2: "iteration_order (load ?w1 (Some ?n)) [''namespace'']"
    by (simp add: lit iteration_order_def)
  note ws = With_spec [OF v1 v2 o1 o2, folded ns]
  show "base (fst (Namespace ks l name w)) = base l" by (rule ws(2))
  show "load (snd (Namespace ks l name w)) (lfields (fst (Namespace ks l name w)))
           = (load w (lfields l))(''namespace'' \<mapsto> VStr name)"
    using ws(3) keep [OF assms(1)] by (simp add: lit)
  show "valid_ref (snd (Namespace ks l name w)) (lfields (fst (Namespace ks l name w)))"
    using ws(1) ws(4) by (simp add: valid_ref_def)
  show "load (snd (Namespace ks l name w)) g = load w g" if "valid_ref w g" for g
  proof -
    have "valid_ref ?w1 g" using that by (rule valid_ref_mono) simp
    then show ?thesis using ws(5) keep [OF that] by simp
  qed
  show "valid_ref (snd (Namespace ks l name w)) g" if "valid_ref w g" for g
    using that by (rule valid_ref_mono) (simp add: ws(4))
qed

lemma single_key_pair:
  assumes "distinct (map fst ps)" and "(k, v) \<in> set ps"
  shows "filter (\<lambda>p. fst p = k) ps = [(k, v)]"
  using assms
proof (induction ps)
  case Nil
  then show ?case by simp
next
  case (Cons p ps)
  show ?case
  proof (cases "fst p = k")
    case True
    then have nk: "k \<notin> fst ` set ps" using Cons.prems(1) by simp
    then have "\<forall>q \<in> set ps. fst q \<noteq> k" by auto
    then have "filter (\<lambda>p. fst p = k) ps = []" by (simp add: filter_empty_conv)
    moreover have "(k, v) \<notin> set ps"
      using nk by (metis fst_conv image_eqI)
    then have "p = (k, v)" using Cons.prems(2) by simp
    ultimately show ?thesis by simp
  next
    case False
    then show ?thesis using Cons by auto
  qed
qed


lemma logged_append: "logged (xs @ ys) = logged xs @ logged ys"
  by (induction xs rule: logged.induct) simp_all

lemma logged_invoke:
  "logged (calls (snd (invoke rt l c w))) = logged (calls w) @ [(call_level c, call_msg c)]"
  by (simp add: invoke_spec(4) logged_append)

lemma Errorf_log_invoke: "Errorf_log rt l f a w = invoke rt l (CallErrorf f a) w"
  by simp

lemma Panicf_invoke: "Panicf rt l f a w = invoke rt l (CallPanicf f a) w"
  by simp

lemma Trace_Some:
  "fst (Trace rt l (Some e) w) = Returned"
  "logged (calls (snd (Trace rt l (Some e) w))) =
     logged (calls w) @ [(ErrorLevel, Sprintf ''%+v'' [VError (WithStack e)])]"
  "written (snd (Trace rt l (Some e) w)) =
     written w @ concat (map (core_write ErrorLevel (Sprintf ''%+v'' [VError (WithStack e)]))
                             (fst (prepare rt l w)))"
  unfolding Trace_def option.case Errorf_log_invoke
  by (simp_all add: invoke_spec(5,6) logged_invoke del: invoke.simps)


lemma invoke_written:
  "written (snd (invoke rt l c w)) = written w @ sink_records rt l (call_level c) (call_msg c) w"
  by (simp add: invoke_spec(5) prepare_spec(1) sink_records_def)

lemma record_heads_append: "record_heads (xs @ ys) = record_heads xs @ record_heads ys"
  by (simp add: record_heads_def)

lemma record_heads_tee:
  "record_heads (concat (map (core_write lvl m) (tee_With fs cs))) =
     map (\<lambda>c. (core_writer c, lvl, m)) (filter (\<lambda>c. enabler c lvl) cs)"
  by (induction cs) (simp_all add: record_heads_def tee_With_def core_With_def core_write_def)

lemma record_heads_sink_records:
  "record_heads (sink_records rt l lvl m w) =
     map (\<lambda>c. (core_writer c, lvl, m)) (filter (\<lambda>c. enabler c lvl) (base l))"
  by (simp add: sink_records_def record_heads_tee)

lemma Errorf_log_spec:
  "fst (Errorf_log rt l f a w) = Returned"
  "written (snd (Errorf_log rt l f a w)) = written w @ sink_records rt l ErrorLevel (Sprintf f a) w"
  "logged (calls (snd (Errorf_log rt l f a w))) = logged (calls w) @ [(ErrorLevel, Sprintf f a)]"
  unfolding Errorf_log_invoke
  by (simp_all add: invoke_spec(6) invoke_written logged_invoke del: invoke.simps)

lemma Panicf_spec:
  "fst (Panicf rt l f a w) = Panicked (Sprintf f a)"
  "written (snd (Panicf rt l f a w)) = written w @ sink_records rt l PanicLevel (Sprintf f a) w"
  "logged (calls (snd (Panicf rt l f a w))) = logged (calls w) @ [(PanicLevel, Sprintf f a)]"
  unfolding Panicf_invoke
  by (simp_all add: invoke_spec(6) invoke_written logged_invoke del: invoke.simps)

lemma trace_then_panic:
  "fst (Panicf rt' l f a (snd (Errorf_log rt l f0 a0 w))) = Panicked (Sprintf f a)"
  "written (snd (Panicf rt' l f a (snd (Errorf_log rt l f0 a0 w)))) =
     written w @ sink_records rt l ErrorLevel (Sprintf f0 a0) w
       @ sink_records rt' l PanicLevel (Sprintf f a) (snd (Errorf_log rt l f0 a0 w))"
  "record_heads (drop (length (written w))
       (written (snd (Panicf rt' l f a (snd (Errorf_log rt l f0 a0 w)))))) =
     map (\<lambda>c. (core_writer c, ErrorLevel, Sprintf f0 a0)) (filter (\<lambda>c. enabler c ErrorLevel) (base l))
     @ map (\<lambda>c. (core_writer c, PanicLevel, Sprintf f a)) (filter (\<lambda>c. enabler c PanicLevel) (base l))"
  "logged (calls (snd (Panicf rt' l f a (snd (Errorf_log rt l f0 a0 w))))) =
     logged (calls w) @ [(ErrorLevel, Sprintf f0 a0), (PanicLevel, Sprintf f a)]"
  by (simp_all add: Panicf_spec Errorf_log_spec record_heads_append record_heads_sink_records)

lemma Trace_eq: "Trace rt l (Some e) w = Errorf_log rt l ''%+v'' [VError (WithStack e)] w"
  by (simp add: Trace_def)
section \<open>Properties of the factory\<close>

text \<open>The definitions that evaluate a construction on a concrete configuration.\<close>

lemmas factory_eval = New_def getFormat_def getLevel_def newZapLogger_def newStdoutCore_def
  newLogstashCore_def NewCore_def NewTee_def tee_With_def core_With_def Println_def
  Fields_literal_def make_map_def map_assign_def FormatJSON_def FormatPretty_def
  ConfigError_def initial_world_def


lemma level_int_rank:
  "(level_int t \<le> level_int lvl) = (zap_severity_rank t \<le> zap_severity_rank lvl)"
  by (cases t; cases lvl) simp_all




section \<open>Loggers derived by With do not share fields\<close>

text \<open>
  Claim C1.  \<open>With\<close> never changes the field context of its receiver: after
  \<open>L.With(fs)\<close> the map of \<open>L\<close>, and every other map that existed before the
  call, holds what it held, and the new logger has a new map holding the merge.
  So for a logger \<open>L\<close> that has neither field, \<open>L2 := L.With({"a": 1})\<close> and
  then \<open>L3 := L.With({"b": 2})\<close>: \<open>L2.GetField("b")\<close>, \<open>L3.GetField("a")\<close>,
  \<open>L.GetField("a")\<close> and \<open>L.GetField("b")\<close> all return not-found, while
  \<open>L2\<close> has \<open>a\<close> and \<open>L3\<close> has \<open>b\<close>.
\<close>

theorem With_isolation:
  assumes "valid_ref w (lfields L)" and "iteration_order (load w (lfields L)) ks"
  shows "(\<forall>fs ns. valid_ref w fs \<and> iteration_order (load w fs) ns \<longrightarrow>
            (case With ks ns L fs w of (L', w') \<Rightarrow>
               load w' (lfields L) = load w (lfields L) \<and>
               (\<forall>g. valid_ref w g \<longrightarrow> load w' g = load w g) \<and>
               load w' (lfields L') = load w (lfields L) ++ load w fs \<and>
               base L' = base L)) \<and>
         (\<forall>ea eb ks'.
            valid_ref w ea \<and> valid_ref w eb \<and>
            load w ea = [''a'' \<mapsto> VInt 1] \<and> load w eb = [''b'' \<mapsto> VInt 2] \<and>
            load w (lfields L) ''a'' = None \<and> load w (lfields L) ''b'' = None \<and>
            iteration_order (load w (lfields L)) ks' \<longrightarrow>
            (case With ks [''a''] L ea w of (L2, w2) \<Rightarrow>
             case With ks' [''b''] L eb w2 of (L3, w3) \<Rightarrow>
               GetField L2 ''b'' w3 = (VNil, False) \<and>
               GetField L3 ''a'' w3 = (VNil, False) \<and>
               GetField L ''a'' w3 = (VNil, False) \<and>
               GetField L ''b'' w3 = (VNil, False) \<and>
               GetField L2 ''a'' w3 = (VInt 1, True) \<and>
               GetField L3 ''b'' w3 = (VInt 2, True) \<and>
               load w3 (lfields L) = load w (lfields L)))"
proof (intro conjI allI impI)
  fix fs ns
  assume a: "valid_ref w fs \<and> iteration_order (load w fs) ns"
  note ws = With_spec [OF assms(1) _ assms(2), of fs ns]
  show "case With ks ns L fs w of (L', w') \<Rightarrow>
               load w' (lfields L) = load w (lfields L) \<and>
               (\<forall>g. valid_ref w g \<longrightarrow> load w' g = load w g) \<and>
               load w' (lfields L') = load w (lfields L) ++ load w fs \<and>
               base L' = base L"
    using a ws(2,3,5) assms(1) by (simp add: split_beta)
next
  fix ea eb ks'
  assume a: "valid_ref w ea \<and> valid_ref w eb \<and>
            load w ea = [''a'' \<mapsto> VInt 1] \<and> load w eb = [''b'' \<mapsto> VInt 2] \<and>
            load w (lfields L) ''a'' = None \<and> load w (lfields L) ''b'' = None \<and>
            iteration_order (load w (lfields L)) ks'"
  let ?m = "load w (lfields L)"
  obtain L2 w2 where r2: "With ks [''a''] L ea w = (L2, w2)" by (cases "With ks [''a''] L ea w")
  obtain L3 w3 where r3: "With ks' [''b''] L eb w2 = (L3, w3)" by (cases "With ks' [''b''] L eb w2")
  have oa: "iteration_order (load w ea) [''a'']"
    using a by (simp add: iteration_order_def)
  note s2 = With_spec [OF assms(1) _ assms(2) oa, unfolded r2, simplified]
  have va: "valid_ref w ea" and vb: "valid_ref w eb" using a by simp_all
  have len2: "length (heap w) \<le> length (heap w2)" using s2(4) [OF va] by simp
  have vL2: "valid_ref w2 (lfields L)" using assms(1) len2 by (rule valid_ref_mono)
  have vb2: "valid_ref w2 eb" using vb len2 by (rule valid_ref_mono)
  have mL2: "load w2 (lfields L) = ?m" using s2(5) [OF va assms(1)] .
  have mb2: "load w2 eb = [''b'' \<mapsto> VInt 2]" using s2(5) [OF va vb] a by simp
  have oL2: "iteration_order (load w2 (lfields L)) ks'" using a mL2 by simp
  have ob2: "iteration_order (load w2 eb) [''b'']"
    by (simp add: mb2 iteration_order_def)
  note s3 = With_spec [OF vL2 vb2 oL2 ob2, unfolded r3, simplified]
  have v22: "valid_ref w2 (lfields L2)"
    using s2(1) [OF va] s2(4) [OF va] by (simp add: valid_ref_def)
  have f2: "load w3 (lfields L2) = ?m ++ [''a'' \<mapsto> VInt 1]"
    using s3(5) [OF v22] s2(3) [OF va] a by simp
  have f3: "load w3 (lfields L3) = ?m ++ [''b'' \<mapsto> VInt 2]"
    using s3(3) mL2 mb2 by simp
  have fL: "load w3 (lfields L) = ?m"
    using s3(5) [OF vL2] mL2 by simp
  show "case With ks [''a''] L ea w of (L2, w2) \<Rightarrow>
             case With ks' [''b''] L eb w2 of (L3, w3) \<Rightarrow>
               GetField L2 ''b'' w3 = (VNil, False) \<and>
               GetField L3 ''a'' w3 = (VNil, False) \<and>
               GetField L ''a'' w3 = (VNil, False) \<and>
               GetField L ''b'' w3 = (VNil, False) \<and>
               GetField L2 ''a'' w3 = (VInt 1, True) \<and>
               GetField L3 ''b'' w3 = (VInt 2, True) \<and>
               load w3 (lfields L) = load w (lfields L)"
    using a by (simp add: r2 r3 GetField_def f2 f3 fL)
qed

theorem With_isolation_witness:
  "valid_ref store_with (lfields logger_default) \<and>
   iteration_order (load store_with (lfields logger_default)) [''namespace''] \<and>
   (case With [''namespace''] [''a''] logger_default (Some 1) store_with of (L2, w2) \<Rightarrow>
    case With [''namespace''] [''b''] logger_default (Some 2) w2 of (L3, w3) \<Rightarrow>
      GetField L2 ''b'' w3 = (VNil, False) \<and>
      GetField L3 ''a'' w3 = (VNil, False) \<and>
      GetField logger_default ''a'' w3 = (VNil, False) \<and>
      GetField logger_default ''b'' w3 = (VNil, False) \<and>
      GetField L2 ''a'' w3 = (VInt 1, True) \<and>
      GetField L3 ''b'' w3 = (VInt 2, True) \<and>
      GetField L2 ''namespace'' w3 = (VStr ''default'', True))"
proof -
  have h1: "valid_ref store_with (lfields logger_default)"
    by (simp add: store_with_def logger_default_def store_eval)
  have h2: "iteration_order (load store_with (lfields logger_default)) [''namespace'']"
    by (auto simp: store_with_def logger_default_def store_eval)
  show ?thesis
    using h1 h2 With_isolation [OF h1 h2]
    by (simp add: store_with_def logger_default_def store_eval With_def GetField_def)
qed

section \<open>Merge builds a new map and leaves its inputs alone\<close>

text \<open>
  Claim C2.  For every field mapping \<open>F\<close> and every mapping \<open>extra\<close>, the map
  returned by \<open>F.Merge(extra)\<close> holds every key of \<open>extra\<close> with the value of
  \<open>extra\<close>, every key of \<open>F\<close> that is not in \<open>extra\<close> with the value of
  \<open>F\<close>, and no other key; it is a new map, and after the call \<open>F\<close>,
  \<open>extra\<close> and every other map of the store hold what they held before.  This
  holds for every order in which the two loops visit the keys.
\<close>

theorem Merge_contents:
  assumes "valid_ref w F" and "valid_ref w extra"
    and "iteration_order (load w F) ks" and "iteration_order (load w extra) ns"
  shows "case Merge ks ns F extra w of (r, w') \<Rightarrow>
           (\<forall>k v. load w extra k = Some v \<longrightarrow> load w' r k = Some v) \<and>
           (\<forall>k. load w extra k = None \<longrightarrow> load w' r k = load w F k) \<and>
           dom (load w' r) = dom (load w F) \<union> dom (load w extra) \<and>
           load w' F = load w F \<and> load w' extra = load w extra \<and>
           (\<forall>g. valid_ref w g \<longrightarrow> load w' g = load w g) \<and>
           r \<noteq> None \<and> r \<noteq> F \<and> r \<noteq> extra"
proof -
  note ms = Merge_spec [OF assms]
  obtain r w' where m: "Merge ks ns F extra w = (r, w')" by (cases "Merge ks ns F extra w")
  have r: "r = Some (length (heap w))" using ms(1) m by simp
  have c: "load w' r = load w F ++ load w extra" using ms(2) m by simp
  have keep: "load w' g = load w g" if "valid_ref w g" for g
    using that ms(4) m by (intro load_preserved) auto
  have ne: "r \<noteq> None" "r \<noteq> F" "r \<noteq> extra"
    using assms(1,2) r by (auto simp: valid_ref_def)
  have p1: "\<forall>k v. load w extra k = Some v \<longrightarrow> load w' r k = Some v"
    by (simp add: c)
  have p2: "\<forall>k. load w extra k = None \<longrightarrow> load w' r k = load w F k"
    by (simp add: c map_add_def)
  have p3: "dom (load w' r) = dom (load w F) \<union> dom (load w extra)"
    by (auto simp: c)
  show ?thesis
    unfolding m using p1 p2 p3 ne keep assms(1,2) by simp
qed

theorem Merge_contents_witness:
  "valid_ref store_ab (Some 0) \<and> valid_ref store_ab (Some 1) \<and>
   iteration_order (load store_ab (Some 0)) [''a'', ''b''] \<and>
   iteration_order (load store_ab (Some 1)) [''c'', ''b''] \<and>
   (case Merge [''a'', ''b''] [''c'', ''b''] (Some 0) (Some 1) store_ab of (r, w') \<Rightarrow>
      r = Some 2 \<and>
      load w' r ''a'' = Some (VInt 1) \<and> load w' r ''b'' = Some (VInt 3) \<and>
      load w' r ''c'' = Some (VInt 4) \<and> load w' r ''d'' = None \<and>
      load w' (Some 0) ''b'' = Some (VInt 2) \<and> load w' (Some 1) ''a'' = None)"
proof -
  have h1: "valid_ref store_ab (Some 0)" and h2: "valid_ref store_ab (Some 1)"
    by (simp_all add: store_ab_def store_eval)
  have h3: "iteration_order (load store_ab (Some 0)) [''a'', ''b'']"
    by (auto simp: store_ab_def store_eval)
  have h4: "iteration_order (load store_ab (Some 1)) [''c'', ''b'']"
    by (auto simp: store_ab_def store_eval)
  show ?thesis
    using h1 h2 h3 h4 Merge_contents [OF h1 h2 h3 h4]
    by (simp add: store_ab_def store_eval)
qed

section \<open>Flatten drops the reserved keys\<close>



section \<open>The shape of a flattened sequence\<close>



section \<open>The flatten buffer goes back to the pool\<close>

text \<open>
  Claim C9.  During a leveled log call the facade takes one buffer from the
  pool, \<open>Flatten\<close> hands it out filled, the emitter's \<open>With\<close> consumes its
  elements, and then, before the entry is logged, the buffer is put back exactly
  once, cut to length 0 with its backing array and capacity kept.  These are all
  the pool operations of the call: nothing is put twice and nothing is kept.  The
  pool after the call is the pool after the \<open>Get\<close> plus that one buffer, and if
  every waiting buffer was empty before the call, every waiting buffer is empty
  after it.
\<close>

theorem buffer_returned_once:
  "case flattenPool_Get (poolPick rt) w of (got, w1) \<Rightarrow>
   case Flatten rt (lfields l) w of (flatten, w2) \<Rightarrow>
   case invoke rt l c w of (oc, w') \<Rightarrow>
     calls w' = calls w @ [PoolGet got, SugarWith (elems flatten),
                           PoolPut (flatten\<lparr>elems := []\<rparr>),
                           SugarLog (call_level c) (call_msg c)] \<and>
     flattenPool w' = flattenPool w1 @ [flatten\<lparr>elems := []\<rparr>] \<and>
     elems (last (flattenPool w')) = [] \<and>
     cap (last (flattenPool w')) = cap flatten \<and>
     ptr (last (flattenPool w')) = ptr flatten \<and>
     (pool_empty w \<longrightarrow> pool_empty w')"
  using invoke_spec(3,4) [of rt l c w] invoke_pool_empty [of w rt l c]
  by (simp add: split_beta)

theorem buffer_returned_once_witness:
  "pool_empty store_case \<and>
   (case invoke run_fresh logger_case (CallInfo [VStr ''okay'']) store_case of (oc, w') \<Rightarrow>
     calls w' = [PoolGet flattenPool_New,
                 SugarWith [VStr ''namespace'', VStr ''awesome'', VStr ''1'', VInt 1],
                 PoolPut \<lparr>ptr = 1, elems = [], cap = 4\<rparr>,
                 SugarLog InfoLevel (Sprint [VStr ''okay''])] \<and>
     flattenPool w' = [\<lparr>ptr = 1, elems = [], cap = 4\<rparr>] \<and>
     pool_empty w')"
proof -
  have h: "pool_empty store_case"
    by (simp add: pool_empty_def store_case_def initial_world_def)
  have g: "flattenPool_Get (poolPick run_fresh) store_case =
             (flattenPool_New, store_case\<lparr>calls := [PoolGet flattenPool_New]\<rparr>)"
    by (simp add: flattenPool_Get_def run_fresh_def store_case_def initial_world_def)
  have f: "fst (Flatten run_fresh (lfields logger_case) store_case) =
             \<lparr>ptr = 1, elems = [VStr ''namespace'', VStr ''awesome'', VStr ''1'', VInt 1], cap = 4\<rparr>"
    by (simp add: Flatten_def flattenPool_Get_def flattenPool_New_def run_fresh_def store_case_def logger_case_def
        initial_world_def load_def ignore_fields_case_def ignore_def append2_def)
  have c0: "calls store_case = []" "flattenPool store_case = []"
    by (simp_all add: store_case_def initial_world_def)
  show ?thesis
    using h buffer_returned_once [where rt = run_fresh and w = store_case and l = logger_case
                                    and c = "CallInfo [VStr ''okay'']"]
    by (simp add: split_beta g f c0)
qed

section \<open>Namespace overrides the namespace field\<close>

text \<open>
  Claim C8.  \<open>Namespace("x")\<close> and then \<open>Namespace("y")\<close> on the resulting logger
  gives a logger whose field context is the original one with the single field
  \<open>namespace\<close> valued \<open>"y"\<close>: \<open>GetField("namespace")\<close> returns \<open>"y"\<close>, and the
  flattened sequence has exactly one pair with the key \<open>namespace\<close>, whose value
  is \<open>"y"\<close>.  The intermediate logger keeps \<open>"x"\<close> and the original logger keeps
  its context.  \<open>Namespace(name)\<close> is \<open>With\<close> applied to the literal
  \<open>{"namespace": name}\<close>.
\<close>

theorem Namespace_overrides:
  assumes "valid_ref w (lfields l)" and "iteration_order (load w (lfields l)) ks"
    and "iteration_order ((load w (lfields l))(''namespace'' \<mapsto> VStr x)) ks'"
  shows "(case Namespace ks l x w of (l1, w1) \<Rightarrow>
          case Namespace ks' l1 y w1 of (l2, w2) \<Rightarrow>
            load w2 (lfields l2) = (load w (lfields l))(''namespace'' \<mapsto> VStr y) \<and>
            GetField l2 ''namespace'' w2 = (VStr y, True) \<and>
            load w2 (lfields l1) = (load w (lfields l))(''namespace'' \<mapsto> VStr x) \<and>
            load w2 (lfields l) = load w (lfields l) \<and>
            (\<forall>rt. pool_empty w2 \<and> iteration_order (load w2 (lfields l2)) (rangeOrder rt) \<longrightarrow>
               filter (\<lambda>p. fst p = VStr ''namespace'')
                 (kv_pairs (elems (fst (Flatten rt (lfields l2) w2))))
                 = [(VStr ''namespace'', VStr y)])) \<and>
         Namespace ks l x w =
           (case Fields_literal [(''namespace'', VStr x)] w of
              (lit, w1) \<Rightarrow> With ks [''namespace''] l lit w1)"
proof -
  obtain l1 w1 where r1: "Namespace ks l x w = (l1, w1)" by (cases "Namespace ks l x w")
  obtain l2 w2 where r2: "Namespace ks' l1 y w1 = (l2, w2)" by (cases "Namespace ks' l1 y w1")
  note s1 = Namespace_spec [OF assms(1,2), where name = x, unfolded r1, simplified]
  have o: "iteration_order (load w1 (lfields l1)) ks'"
    using assms(3) s1(2) by simp
  note s2 = Namespace_spec [OF s1(3) o, where name = y, unfolded r2, simplified]
  have m2: "load w2 (lfields l2) = (load w (lfields l))(''namespace'' \<mapsto> VStr y)"
    using s2(2) s1(2) by simp
  have m1: "load w2 (lfields l1) = (load w (lfields l))(''namespace'' \<mapsto> VStr x)"
    using s2(4) [OF s1(3)] s1(2) by simp
  have m0: "load w2 (lfields l) = load w (lfields l)"
    using s2(4) [OF s1(5) [OF assms(1)]] s1(4) [OF assms(1)] by simp
  have fl: "filter (\<lambda>p. fst p = VStr ''namespace'')
              (kv_pairs (elems (fst (Flatten rt (lfields l2) w2))))
              = [(VStr ''namespace'', VStr y)]"
    if pe: "pool_empty w2" and io: "iteration_order (load w2 (lfields l2)) (rangeOrder rt)" for rt
  proof -
    have el: "elems (fst (Flatten rt (lfields l2) w2))
                = flatten_of (load w2 (lfields l2)) (rangeOrder rt)"
      using Flatten_elems [of rt "lfields l2" w2] Get_elems [OF pe] by simp
    have d: "distinct (rangeOrder rt)" and s: "set (rangeOrder rt) = dom (load w2 (lfields l2))"
      using io by (simp_all add: iteration_order_def)
    have "(VStr ''namespace'', VStr y) \<in> set (kv_pairs (elems (fst (Flatten rt (lfields l2) w2))))"
      unfolding el set_kv_pairs_flatten_of s by (simp add: m2 ignore_def)
    moreover have "distinct (map fst (kv_pairs (elems (fst (Flatten rt (lfields l2) w2)))))"
      unfolding el using d by (rule distinct_keys_flatten_of)
    ultimately show ?thesis by (rule single_key_pair [rotated])
  qed
  have twice: "case Namespace ks l x w of (l1, w1) \<Rightarrow>
          case Namespace ks' l1 y w1 of (l2, w2) \<Rightarrow>
            load w2 (lfields l2) = (load w (lfields l))(''namespace'' \<mapsto> VStr y) \<and>
            GetField l2 ''namespace'' w2 = (VStr y, True) \<and>
            load w2 (lfields l1) = (load w (lfields l))(''namespace'' \<mapsto> VStr x) \<and>
            load w2 (lfields l) = load w (lfields l) \<and>
            (\<forall>rt. pool_empty w2 \<and> iteration_order (load w2 (lfields l2)) (rangeOrder rt) \<longrightarrow>
               filter (\<lambda>p. fst p = VStr ''namespace'')
                 (kv_pairs (elems (fst (Flatten rt (lfields l2) w2))))
                 = [(VStr ''namespace'', VStr y)])"
    using m2 m1 m0 fl by (simp add: r1 r2 GetField_def)
  show ?thesis
    using twice Namespace_as_With [of ks l x w] by (rule conjI)
qed

theorem Namespace_overrides_witness:
  "valid_ref store_with (lfields logger_default) \<and>
   iteration_order (load store_with (lfields logger_default)) [''namespace''] \<and>
   iteration_order ((load store_with (lfields logger_default))(''namespace'' \<mapsto> VStr ''x''))
     [''namespace''] \<and>
   (case Namespace [''namespace''] logger_default ''x'' store_with of (l1, w1) \<Rightarrow>
    case Namespace [''namespace''] l1 ''y'' w1 of (l2, w2) \<Rightarrow>
      GetField l2 ''namespace'' w2 = (VStr ''y'', True) \<and>
      GetField l1 ''namespace'' w2 = (VStr ''x'', True) \<and>
      GetField logger_default ''namespace'' w2 = (VStr ''default'', True) \<and>
      load w2 (lfields l2) = [''namespace'' \<mapsto> VStr ''y''])"
proof -
  have h1: "valid_ref store_with (lfields logger_default)"
    by (simp add: store_with_def logger_default_def store_eval)
  have h2: "iteration_order (load store_with (lfields logger_default)) [''namespace'']"
    by (auto simp: store_with_def logger_default_def store_eval)
  have h3: "iteration_order
              ((load store_with (lfields logger_default))(''namespace'' \<mapsto> VStr ''x''))
              [''namespace'']"
    by (auto simp: store_with_def logger_default_def store_eval)
  show ?thesis
    using h1 h2 h3 Namespace_overrides [OF h1 h2 h3, of "''y''", THEN conjunct1]
    by (simp add: store_with_def logger_default_def store_eval Namespace_def Fields_literal_def
        GetField_def)
qed

section \<open>Construction validates the configuration\<close>

text \<open>
  Claim C4.  An empty level makes \<open>New\<close> behave as for the level \<open>"info"\<close>,
  after printing a warning; an empty format makes it behave as for the format
  \<open>"json"\<close>; and when the format is none of empty, \<open>"json"\<close>, \<open>"pretty"\<close>, or
  the level is none of empty and the six level names, \<open>New\<close> returns a nil
  logger and an error, which is one of the two configuration errors.
\<close>

theorem New_validates:
  "(Level config = '''' \<longrightarrow>
      New dial config w = New dial (config\<lparr>Level := ''info''\<rparr>) (Println level_warning w)) \<and>
   (FormatStdout config = '''' \<longrightarrow>
      New dial config w = New dial (config\<lparr>FormatStdout := FormatJSON\<rparr>) w) \<and>
   (FormatStdout config \<notin> {'''', FormatJSON, FormatPretty} \<or>
    Level config \<notin> {'''', ''debug'', ''info'', ''warn'', ''error'', ''fatal'', ''panic''} \<longrightarrow>
      (case fst (New dial config w) of
         (logger, err) \<Rightarrow>
           logger = None \<and> (case err of None \<Rightarrow> False | Some e \<Rightarrow> ConfigError e)))"
proof (intro conjI impI)
  assume "Level config = ''''"
  then show "New dial config w = New dial (config\<lparr>Level := ''info''\<rparr>) (Println level_warning w)"
    by (simp add: New_def split: prod.splits option.splits)
next
  assume "FormatStdout config = ''''"
  then show "New dial config w = New dial (config\<lparr>FormatStdout := FormatJSON\<rparr>) w"
    by (simp add: New_def getFormat_def FormatJSON_def FormatPretty_def
             split: prod.splits option.splits)
next
  assume bad: "FormatStdout config \<notin> {'''', FormatJSON, FormatPretty} \<or>
    Level config \<notin> {'''', ''debug'', ''info'', ''warn'', ''error'', ''fatal'', ''panic''}"
  show "case fst (New dial config w) of
         (logger, err) \<Rightarrow>
           logger = None \<and> (case err of None \<Rightarrow> False | Some e \<Rightarrow> ConfigError e)"
  proof (cases "snd (getFormat (FormatStdout config))")
    case (Some e)
    then have "ConfigError e"
      by (auto simp: getFormat_def ConfigError_def split: if_splits)
    with Some show ?thesis
      by (cases "getFormat (FormatStdout config)") (simp add: New_def split_beta)
  next
    case None
    then have okf: "FormatStdout config \<in> {'''', FormatJSON, FormatPretty}"
      by (auto simp: getFormat_def split: if_splits)
    with bad have badl: "Level config \<notin> {'''', ''debug'', ''info'', ''warn'', ''error'', ''fatal'', ''panic''}"
      by blast
    then have gl: "getLevel (Level config) =
                     (InfoLevel, Some (Errorf ''bad logging level %v'' [Level config]))"
      by (simp add: getLevel_def)
    have "ConfigError (Errorf ''bad logging level %v'' [Level config])"
      by (simp add: ConfigError_def)
    with None gl badl show ?thesis
      by (cases "getFormat (FormatStdout config)") (simp add: New_def split_beta)
  qed
qed

theorem New_validates_witness:
  "fst (New dial_ok bogus_config initial_world) =
     (None, Some (Errorf ''bad logging level %v'' [''bogus''])) \<and>
   ConfigError (Errorf ''bad logging level %v'' [''bogus'']) \<and>
   (case New dial_ok unset_config initial_world of
      ((logger, err), w') \<Rightarrow>
        err = None \<and> stdlog w' = [level_warning] \<and>
        (case logger of
           None \<Rightarrow> False
         | Some l \<Rightarrow>
             map core_encoder (base l) = [JSONEncoder newEncoderConfig] \<and>
             map (\<lambda>c. enabler c InfoLevel) (base l) = [True] \<and>
             map (\<lambda>c. enabler c DebugLevel) (base l) = [False]))"
proof -
  have bad: "FormatStdout bogus_config \<notin> {'''', FormatJSON, FormatPretty} \<or>
    Level bogus_config \<notin> {'''', ''debug'', ''info'', ''warn'', ''error'', ''fatal'', ''panic''}"
    by (simp add: bogus_config_def DefaultConfig_def)
  have l: "Level unset_config = ''''" and f: "FormatStdout unset_config = ''''"
    by (simp_all add: unset_config_def)
  note v = New_validates [of bogus_config dial_ok initial_world]
  note u = New_validates [of unset_config dial_ok initial_world]
  have "fst (New dial_ok bogus_config initial_world) =
     (None, Some (Errorf ''bad logging level %v'' [''bogus'']))"
    using v bad by (simp add: bogus_config_def DefaultConfig_def factory_eval)
  moreover have "ConfigError (Errorf ''bad logging level %v'' [''bogus''])"
    by (simp add: ConfigError_def)
  moreover have "case New dial_ok unset_config initial_world of
      ((logger, err), w') \<Rightarrow>
        err = None \<and> stdlog w' = [level_warning] \<and>
        (case logger of
           None \<Rightarrow> False
         | Some l \<Rightarrow>
             map core_encoder (base l) = [JSONEncoder newEncoderConfig] \<and>
             map (\<lambda>c. enabler c InfoLevel) (base l) = [True] \<and>
             map (\<lambda>c. enabler c DebugLevel) (base l) = [False])"
    using u l f by (simp add: unset_config_def dial_ok_def factory_eval)
  ultimately show ?thesis by blast
qed

section \<open>A sink emits from its threshold upwards\<close>

text \<open>
  Claim C6, amended.  For every sink the factory builds (the console sink, and
  the network sink when the dial succeeds) and every log record, the sink emits
  the record iff the record's level is at least the sink's threshold in the order
  debug < info < warn < error < panic < fatal, which is the order of the
  library's level constants that the enabler \<^verbatim>\<open>level >= zapLevel\<close> compares.
\<close>

theorem sink_threshold:
  "(core_write lvl m (newStdoutCore t format) \<noteq> [] \<longleftrightarrow>
      zap_severity_rank t \<le> zap_severity_rank lvl) \<and>
   (case newLogstashCore dial t protocol addr of
      (None, err) \<Rightarrow> err = dial protocol addr \<and> err \<noteq> None
    | (Some c, err) \<Rightarrow>
        err = None \<and>
        (core_write lvl m c \<noteq> [] \<longleftrightarrow> zap_severity_rank t \<le> zap_severity_rank lvl))"
proof -
  have "core_write lvl m (newStdoutCore t format) \<noteq> [] \<longleftrightarrow>
          zap_severity_rank t \<le> zap_severity_rank lvl"
    by (simp add: core_write_def newStdoutCore_def NewCore_def level_int_rank)
  moreover have "case newLogstashCore dial t protocol addr of
      (None, err) \<Rightarrow> err = dial protocol addr \<and> err \<noteq> None
    | (Some c, err) \<Rightarrow>
        err = None \<and>
        (core_write lvl m c \<noteq> [] \<longleftrightarrow> zap_severity_rank t \<le> zap_severity_rank lvl)"
    by (cases "dial protocol addr")
       (simp_all add: core_write_def newLogstashCore_def NewCore_def core_With_def level_int_rank)
  ultimately show ?thesis by (rule conjI)
qed

theorem sink_threshold_witness:
  "core_write ErrorLevel (Sprint [VStr ''e'']) (newStdoutCore WarnLevel FormatJSON) =
     [(Stdout, JSONEncoder newEncoderConfig,
       \<lparr>entry_level = ErrorLevel, entry_message = Sprint [VStr ''e''], entry_fields = []\<rparr>)] \<and>
   core_write InfoLevel (Sprint [VStr ''i'']) (newStdoutCore WarnLevel FormatJSON) = [] \<and>
   core_write FatalLevel (Sprint [VStr ''f'']) (newStdoutCore PanicLevel FormatJSON) \<noteq> [] \<and>
   core_write PanicLevel (Sprint [VStr ''p'']) (newStdoutCore FatalLevel FormatJSON) = []"
  using sink_threshold [of ErrorLevel "Sprint [VStr ''e'']" WarnLevel FormatJSON dial_ok "''''" "''''"]
  by (simp add: core_write_def newStdoutCore_def NewCore_def)

text \<open>
  With the order as the claim words it, debug < info < warn < error < fatal <
  panic, the equivalence fails: a sink with threshold fatal does not emit a record
  at level panic, although panic is above fatal in that order.
\<close>

theorem sink_threshold_spec_order_counterexample:
  "\<not> (core_write PanicLevel (Sprint [VStr ''p'']) (newStdoutCore FatalLevel FormatJSON) \<noteq> [] \<longleftrightarrow>
        spec_severity_rank FatalLevel \<le> spec_severity_rank PanicLevel)"
  by (simp add: core_write_def newStdoutCore_def NewCore_def)

section \<open>A logger without sinks\<close>




section \<open>Recover logs the payload and panics again\<close>

text \<open>
  Claim C5.  When no panic is unwinding (\<open>recover()\<close> returns nil), \<open>Recover\<close>
  does nothing; so does \<open>Trace\<close> of the nil error.  \<open>Trace\<close> of an error is
  the call \<open>Errorf("%+v", WithStack(err))\<close> on the logger itself: it returns, and
  every sink of the logger that admits the error level has written the record,
  with the logger's flattened fields.  When the payload is an error, \<open>Recover\<close>
  passes it to \<open>Trace\<close>; when the payload is a string, \<open>Recover\<close> wraps it into
  an error and passes that to \<open>Trace\<close>.  In both cases, and without any trace
  step when the payload is of another type, it then calls \<open>Panicf\<close> on the
  logger with the message and the original payload: the sinks that admit the panic
  level write that record after the trace record, and the call panics.  The
  records written are exactly these, in this order.
\<close>

theorem Recover_logs_then_panics:
  "Recover rt rt' l m VNil w = (Returned, w) \<and>
   Trace rt l None w = (Returned, w) \<and>
   Trace rt l (Some e) w = Errorf_log rt l ''%+v'' [VError (WithStack e)] w \<and>
   fst (Trace rt l (Some e) w) = Returned \<and>
   written (snd (Trace rt l (Some e) w)) =
     written w @ sink_records rt l ErrorLevel (Sprintf ''%+v'' [VError (WithStack e)]) w \<and>
   Recover rt rt' l m (VError e) w =
     Panicf rt' l ''recovered %s from %v'' [VStr m, VError e] (snd (Trace rt l (Some e) w)) \<and>
   written (snd (Recover rt rt' l m (VError e) w)) =
     written w @ sink_records rt l ErrorLevel (Sprintf ''%+v'' [VError (WithStack e)]) w
       @ sink_records rt' l PanicLevel (Sprintf ''recovered %s from %v'' [VStr m, VError e])
           (snd (Errorf_log rt l ''%+v'' [VError (WithStack e)] w)) \<and>
   record_heads (drop (length (written w)) (written (snd (Recover rt rt' l m (VError e) w)))) =
     map (\<lambda>c. (core_writer c, ErrorLevel, Sprintf ''%+v'' [VError (WithStack e)]))
         (filter (\<lambda>c. enabler c ErrorLevel) (base l))
     @ map (\<lambda>c. (core_writer c, PanicLevel, Sprintf ''recovered %s from %v'' [VStr m, VError e]))
         (filter (\<lambda>c. enabler c PanicLevel) (base l)) \<and>
   logged (calls (snd (Recover rt rt' l m (VError e) w))) =
     logged (calls w) @ [(ErrorLevel, Sprintf ''%+v'' [VError (WithStack e)]),
                         (PanicLevel, Sprintf ''recovered %s from %v'' [VStr m, VError e])] \<and>
   fst (Recover rt rt' l m (VError e) w) =
     Panicked (Sprintf ''recovered %s from %v'' [VStr m, VError e]) \<and>
   Recover rt rt' l m (VStr s) w =
     Panicf rt' l ''recovered %s from %v'' [VStr m, VStr s]
       (snd (Trace rt l (Some (ErrorsNew s)) w)) \<and>
   written (snd (Recover rt rt' l m (VStr s) w)) =
     written w @ sink_records rt l ErrorLevel (Sprintf ''%+v'' [VError (WithStack (ErrorsNew s))]) w
       @ sink_records rt' l PanicLevel (Sprintf ''recovered %s from %v'' [VStr m, VStr s])
           (snd (Errorf_log rt l ''%+v'' [VError (WithStack (ErrorsNew s))] w)) \<and>
   record_heads (drop (length (written w)) (written (snd (Recover rt rt' l m (VStr s) w)))) =
     map (\<lambda>c. (core_writer c, ErrorLevel, Sprintf ''%+v'' [VError (WithStack (ErrorsNew s))]))
         (filter (\<lambda>c. enabler c ErrorLevel) (base l))
     @ map (\<lambda>c. (core_writer c, PanicLevel, Sprintf ''recovered %s from %v'' [VStr m, VStr s]))
         (filter (\<lambda>c. enabler c PanicLevel) (base l)) \<and>
   logged (calls (snd (Recover rt rt' l m (VStr s) w))) =
     logged (calls w) @ [(ErrorLevel, Sprintf ''%+v'' [VError (WithStack (ErrorsNew s))]),
                         (PanicLevel, Sprintf ''recovered %s from %v'' [VStr m, VStr s])] \<and>
   fst (Recover rt rt' l m (VStr s) w) =
     Panicked (Sprintf ''recovered %s from %v'' [VStr m, VStr s]) \<and>
   (other_payload i \<longrightarrow>
      Recover rt rt' l m i w = Panicf rt' l ''recovered %s from %v'' [VStr m, i] w \<and>
      written (snd (Recover rt rt' l m i w)) =
        written w @ sink_records rt' l PanicLevel (Sprintf ''recovered %s from %v'' [VStr m, i]) w \<and>
      record_heads (drop (length (written w)) (written (snd (Recover rt rt' l m i w)))) =
        map (\<lambda>c. (core_writer c, PanicLevel, Sprintf ''recovered %s from %v'' [VStr m, i]))
            (filter (\<lambda>c. enabler c PanicLevel) (base l)) \<and>
      logged (calls (snd (Recover rt rt' l m i w))) =
        logged (calls w) @ [(PanicLevel, Sprintf ''recovered %s from %v'' [VStr m, i])] \<and>
      fst (Recover rt rt' l m i w) = Panicked (Sprintf ''recovered %s from %v'' [VStr m, i]))"
proof -
  have nil: "Recover rt rt' l m VNil w = (Returned, w)" "Trace rt l None w = (Returned, w)"
    by (simp_all add: Recover_def Trace_def)
  have tr: "fst (Trace rt l (Some e) w) = Returned"
    "written (snd (Trace rt l (Some e) w)) =
       written w @ sink_records rt l ErrorLevel (Sprintf ''%+v'' [VError (WithStack e)]) w"
    by (simp_all add: Trace_eq Errorf_log_spec)
  have err: "Recover rt rt' l m (VError e) w =
     Panicf rt' l ''recovered %s from %v'' [VStr m, VError e]
       (snd (Errorf_log rt l ''%+v'' [VError (WithStack e)] w))"
    using Errorf_log_spec(1) [of rt l "''%+v''" "[VError (WithStack e)]" w]
    by (simp add: Recover_def Trace_eq split_beta)
  have str: "Recover rt rt' l m (VStr s) w =
     Panicf rt' l ''recovered %s from %v'' [VStr m, VStr s]
       (snd (Errorf_log rt l ''%+v'' [VError (WithStack (ErrorsNew s))] w))"
    using Errorf_log_spec(1) [of rt l "''%+v''" "[VError (WithStack (ErrorsNew s))]" w]
    by (simp add: Recover_def Trace_eq split_beta)
  have oth: "Recover rt rt' l m i w = Panicf rt' l ''recovered %s from %v'' [VStr m, i] w"
    if "other_payload i"
    using that by (cases i) (simp_all add: Recover_def other_payload_def)
  have errs: "Recover rt rt' l m (VError e) w =
       Panicf rt' l ''recovered %s from %v'' [VStr m, VError e] (snd (Trace rt l (Some e) w))"
    "written (snd (Recover rt rt' l m (VError e) w)) =
       written w @ sink_records rt l ErrorLevel (Sprintf ''%+v'' [VError (WithStack e)]) w
         @ sink_records rt' l PanicLevel (Sprintf ''recovered %s from %v'' [VStr m, VError e])
             (snd (Errorf_log rt l ''%+v'' [VError (WithStack e)] w))"
    "record_heads (drop (length (written w)) (written (snd (Recover rt rt' l m (VError e) w)))) =
       map (\<lambda>c. (core_writer c, ErrorLevel, Sprintf ''%+v'' [VError (WithStack e)]))
           (filter (\<lambda>c. enabler c ErrorLevel) (base l))
       @ map (\<lambda>c. (core_writer c, PanicLevel, Sprintf ''recovered %s from %v'' [VStr m, VError e]))
           (filter (\<lambda>c. enabler c PanicLevel) (base l))"
    "logged (calls (snd (Recover rt rt' l m (VError e) w))) =
       logged (calls w) @ [(ErrorLevel, Sprintf ''%+v'' [VError (WithStack e)]),
                           (PanicLevel, Sprintf ''recovered %s from %v'' [VStr m, VError e])]"
    "fst (Recover rt rt' l m (VError e) w) =
       Panicked (Sprintf ''recovered %s from %v'' [VStr m, VError e])"
    unfolding err Trace_eq by (rule refl trace_then_panic)+
  have strs: "Recover rt rt' l m (VStr s) w =
       Panicf rt' l ''recovered %s from %v'' [VStr m, VStr s]
         (snd (Trace rt l (Some (ErrorsNew s)) w))"
    "written (snd (Recover rt rt' l m (VStr s) w)) =
       written w @ sink_records rt l ErrorLevel (Sprintf ''%+v'' [VError (WithStack (ErrorsNew s))]) w
         @ sink_records rt' l PanicLevel (Sprintf ''recovered %s from %v'' [VStr m, VStr s])
             (snd (Errorf_log rt l ''%+v'' [VError (WithStack (ErrorsNew s))] w))"
    "record_heads (drop (length (written w)) (written (snd (Recover rt rt' l m (VStr s) w)))) =
       map (\<lambda>c. (core_writer c, ErrorLevel, Sprintf ''%+v'' [VError (WithStack (ErrorsNew s))]))
           (filter (\<lambda>c. enabler c ErrorLevel) (base l))
       @ map (\<lambda>c. (core_writer c, PanicLevel, Sprintf ''recovered %s from %v'' [VStr m, VStr s]))
           (filter (\<lambda>c. enabler c PanicLevel) (base l))"
    "logged (calls (snd (Recover rt rt' l m (VStr s) w))) =
       logged (calls w) @ [(ErrorLevel, Sprintf ''%+v'' [VError (WithStack (ErrorsNew s))]),
                           (PanicLevel, Sprintf ''recovered %s from %v'' [VStr m, VStr s])]"
    "fst (Recover rt rt' l m (VStr s) w) =
       Panicked (Sprintf ''recovered %s from %v'' [VStr m, VStr s])"
    unfolding str Trace_eq by (rule refl trace_then_panic)+
  have oths: "Recover rt rt' l m i w = Panicf rt' l ''recovered %s from %v'' [VStr m, i] w \<and>
      written (snd (Recover rt rt' l m i w)) =
        written w @ sink_records rt' l PanicLevel (Sprintf ''recovered %s from %v'' [VStr m, i]) w \<and>
      record_heads (drop (length (written w)) (written (snd (Recover rt rt' l m i w)))) =
        map (\<lambda>c. (core_writer c, PanicLevel, Sprintf ''recovered %s from %v'' [VStr m, i]))
            (filter (\<lambda>c. enabler c PanicLevel) (base l)) \<and>
      logged (calls (snd (Recover rt rt' l m i w))) =
        logged (calls w) @ [(PanicLevel, Sprintf ''recovered %s from %v'' [VStr m, i])] \<and>
      fst (Recover rt rt' l m i w) = Panicked (Sprintf ''recovered %s from %v'' [VStr m, i])"
    if "other_payload i"
    unfolding oth [OF that] by (simp add: Panicf_spec record_heads_sink_records)
  show ?thesis
    using nil Trace_eq [of rt l e w] tr errs strs oths by blast
qed

theorem Recover_logs_then_panics_witness:
  "other_payload (VInt 7) \<and>
   written (snd (Recover run_ns run_ns logger_default ''worker'' (VStr ''boom'') store_with)) =
     [(Stdout, JSONEncoder newEncoderConfig,
       \<lparr>entry_level = ErrorLevel,
        entry_message = Sprintf ''%+v'' [VError (WithStack (ErrorsNew ''boom''))],
        entry_fields = [(''namespace'', VStr ''default'')]\<rparr>),
      (Stdout, JSONEncoder newEncoderConfig,
       \<lparr>entry_level = PanicLevel,
        entry_message = Sprintf ''recovered %s from %v'' [VStr ''worker'', VStr ''boom''],
        entry_fields = [(''namespace'', VStr ''default'')]\<rparr>)] \<and>
   written (snd (Recover run_ns run_ns logger_default ''worker'' (VInt 7) store_with)) =
     [(Stdout, JSONEncoder newEncoderConfig,
       \<lparr>entry_level = PanicLevel,
        entry_message = Sprintf ''recovered %s from %v'' [VStr ''worker'', VInt 7],
        entry_fields = [(''namespace'', VStr ''default'')]\<rparr>)] \<and>
   logged (calls (snd (Recover run_ns run_ns quiet_logger ''worker'' (VInt 7) quiet_world))) =
     [(PanicLevel, Sprintf ''recovered %s from %v'' [VStr ''worker'', VInt 7])] \<and>
   logged (calls (snd (Recover run_ns run_ns quiet_logger ''worker'' (VStr ''boom'') quiet_world))) =
     [(ErrorLevel, Sprintf ''%+v'' [VError (WithStack (ErrorsNew ''boom''))]),
      (PanicLevel, Sprintf ''recovered %s from %v'' [VStr ''worker'', VStr ''boom''])] \<and>
   fst (Recover run_ns run_ns quiet_logger ''worker'' (VStr ''boom'') quiet_world) =
     Panicked (Sprintf ''recovered %s from %v'' [VStr ''worker'', VStr ''boom''])"
proof -
  have h: "other_payload (VInt 7)" by (simp add: other_payload_def)
  have c: "calls quiet_world = []" by (simp add: quiet_world_def initial_world_def)
  have wr: "written store_with = []" by (simp add: store_with_def initial_world_def)
  have fl: "elems (fst (Flatten run_ns (Some 0) w)) =
              elems (fst (flattenPool_Get (poolPick run_ns) w)) @ [VStr ''namespace'', VStr ''default'']"
    if "heap w = heap store_with" for w
  proof -
    have "load w (Some 0) = [''namespace'' \<mapsto> VStr ''default'']"
      using that by (simp add: load_def store_with_def)
    then show ?thesis
      by (simp add: Flatten_elems flatten_of_def run_ns_def ignore_def)
  qed
  have g: "elems (fst (flattenPool_Get (poolPick run_ns) w)) = []" for w
    by (simp add: flattenPool_Get_def run_ns_def flattenPool_New_def)
  have sr: "sink_records run_ns logger_default lvl msg w =
              (if level_int InfoLevel \<le> level_int lvl
               then [(Stdout, JSONEncoder newEncoderConfig,
                      \<lparr>entry_level = lvl, entry_message = msg,
                       entry_fields = [(''namespace'', VStr ''default'')]\<rparr>)]
               else [])"
    if "heap w = heap store_with" for w lvl msg
    by (simp add: sink_records_def fl [OF that] g tee_With_def core_With_def core_write_def
        logger_default_def newStdoutCore_def NewCore_def FormatJSON_def)
  have hp: "heap (snd (Errorf_log run_ns logger_default f a store_with)) = heap store_with" for f a
    by (simp add: Errorf_log_invoke invoke_spec(1) del: invoke.simps)
  note t1 = Recover_logs_then_panics [where rt = run_ns and rt' = run_ns and l = logger_default
        and m = "''worker''" and w = store_with and s = "''boom''" and i = "VInt 7"
        and e = "ErrorsNew ''x''"]
  note t2 = Recover_logs_then_panics [where rt = run_ns and rt' = run_ns and l = quiet_logger
        and m = "''worker''" and w = quiet_world and s = "''boom''" and i = "VInt 7"
        and e = "ErrorsNew ''x''"]
  have a1: "written (snd (Recover run_ns run_ns logger_default ''worker'' (VStr ''boom'') store_with)) =
     written store_with
       @ sink_records run_ns logger_default ErrorLevel
           (Sprintf ''%+v'' [VError (WithStack (ErrorsNew ''boom''))]) store_with
       @ sink_records run_ns logger_default PanicLevel
           (Sprintf ''recovered %s from %v'' [VStr ''worker'', VStr ''boom''])
           (snd (Errorf_log run_ns logger_default ''%+v''
                   [VError (WithStack (ErrorsNew ''boom''))] store_with))"
    using t1 by blast
  have a2: "written (snd (Recover run_ns run_ns logger_default ''worker'' (VInt 7) store_with)) =
     written store_with
       @ sink_records run_ns logger_default PanicLevel
           (Sprintf ''recovered %s from %v'' [VStr ''worker'', VInt 7]) store_with"
    using t1 h by blast
  have w1: "written (snd (Recover run_ns run_ns logger_default ''worker'' (VStr ''boom'') store_with)) =
     [(Stdout, JSONEncoder newEncoderConfig,
       \<lparr>entry_level = ErrorLevel,
        entry_message = Sprintf ''%+v'' [VError (WithStack (ErrorsNew ''boom''))],
        entry_fields = [(''namespace'', VStr ''default'')]\<rparr>),
      (Stdout, JSONEncoder newEncoderConfig,
       \<lparr>entry_level = PanicLevel,
        entry_message = Sprintf ''recovered %s from %v'' [VStr ''worker'', VStr ''boom''],
        entry_fields = [(''namespace'', VStr ''default'')]\<rparr>)]"
    unfolding a1 by (simp add: wr sr hp)
  have w2: "written (snd (Recover run_ns run_ns logger_default ''worker'' (VInt 7) store_with)) =
     [(Stdout, JSONEncoder newEncoderConfig,
       \<lparr>entry_level = PanicLevel,
        entry_message = Sprintf ''recovered %s from %v'' [VStr ''worker'', VInt 7],
        entry_fields = [(''namespace'', VStr ''default'')]\<rparr>)]"
    unfolding a2 by (simp add: wr sr)
  show ?thesis
    using h c w1 w2 t2 by auto
qed


end
